theory Spec2Isabelle
  imports Complex_Main
begin

section \<open>JavaScript numbers\<close>

text \<open>
  The values of JavaScript's Number type as the cleaning and analysis code of
  \<^verbatim>\<open>backend/server.js\<close> meets them: finite numbers, the negative zero, the two
  infinities and NaN. Finite arithmetic is exact (a finite result is the real-number
  result, neither rounded to a double nor overflowing); everything that the code's
  guards are about (division by zero, NaN and the infinities propagating through the
  operators) follows IEEE 754 as ECMAScript prescribes it. \<open>Fin 0\<close> is the positive
  zero.
\<close>

datatype jsnum = Fin real | NZero | PInf | NInf | NaN

definition isNaN :: "jsnum \<Rightarrow> bool" where
  "isNaN x = (x = NaN)"

fun is_neg :: "jsnum \<Rightarrow> bool" where
  "is_neg (Fin r) = (r < 0)"
| "is_neg NZero = True"
| "is_neg NInf = True"
| "is_neg PInf = False"
| "is_neg NaN = False"

fun is_zero :: "jsnum \<Rightarrow> bool" where
  "is_zero (Fin r) = (r = 0)"
| "is_zero NZero = True"
| "is_zero PInf = False"
| "is_zero NInf = False"
| "is_zero NaN = False"

fun is_inf :: "jsnum \<Rightarrow> bool" where
  "is_inf PInf = True"
| "is_inf NInf = True"
| "is_inf (Fin r) = False"
| "is_inf NZero = False"
| "is_inf NaN = False"

fun mag :: "jsnum \<Rightarrow> real" where
  "mag (Fin r) = \<bar>r\<bar>"
| "mag NZero = 0"
| "mag PInf = 0"
| "mag NInf = 0"
| "mag NaN = 0"

fun fval :: "jsnum \<Rightarrow> real" where
  "fval (Fin r) = r"
| "fval NZero = 0"
| "fval PInf = 0"
| "fval NInf = 0"
| "fval NaN = 0"

definition signed_zero :: "bool \<Rightarrow> jsnum" where
  "signed_zero neg = (if neg then NZero else Fin 0)"

definition signed_inf :: "bool \<Rightarrow> jsnum" where
  "signed_inf neg = (if neg then NInf else PInf)"

definition signed_fin :: "bool \<Rightarrow> real \<Rightarrow> jsnum" where
  "signed_fin neg m = (if m = 0 then signed_zero neg else if neg then Fin (- m) else Fin m)"

fun jneg :: "jsnum \<Rightarrow> jsnum" where
  "jneg (Fin r) = (if r = 0 then NZero else Fin (- r))"
| "jneg NZero = Fin 0"
| "jneg PInf = NInf"
| "jneg NInf = PInf"
| "jneg NaN = NaN"

text \<open>\<open>a + b\<close>: opposite infinities give NaN, \<open>-0 + -0\<close> is \<open>-0\<close>, every other zero sum is \<open>+0\<close>.\<close>

fun jadd :: "jsnum \<Rightarrow> jsnum \<Rightarrow> jsnum" where
  "jadd NaN b = NaN"
| "jadd a NaN = NaN"
| "jadd PInf NInf = NaN"
| "jadd NInf PInf = NaN"
| "jadd PInf b = PInf"
| "jadd a PInf = PInf"
| "jadd NInf b = NInf"
| "jadd a NInf = NInf"
| "jadd NZero NZero = NZero"
| "jadd NZero (Fin r) = Fin r"
| "jadd (Fin r) NZero = Fin r"
| "jadd (Fin a) (Fin b) = Fin (a + b)"

definition jsub :: "jsnum \<Rightarrow> jsnum \<Rightarrow> jsnum" where
  "jsub a b = jadd a (jneg b)"

text \<open>\<open>a * b\<close>: the sign is the exclusive or of the signs; infinity times zero is NaN.\<close>

definition jmul :: "jsnum \<Rightarrow> jsnum \<Rightarrow> jsnum" where
  "jmul a b =
     (if isNaN a \<or> isNaN b then NaN
      else if (is_inf a \<and> is_zero b) \<or> (is_zero a \<and> is_inf b) then NaN
      else if is_inf a \<or> is_inf b then signed_inf (is_neg a \<noteq> is_neg b)
      else signed_fin (is_neg a \<noteq> is_neg b) (mag a * mag b))"

text \<open>
  \<open>a / b\<close>: \<open>0/0\<close> and \<open>\<infinity>/\<infinity>\<close> are NaN; a nonzero number divided by a zero is the
  infinity whose sign is the exclusive or of the signs.
\<close>

definition jdiv :: "jsnum \<Rightarrow> jsnum \<Rightarrow> jsnum" where
  "jdiv a b =
     (if isNaN a \<or> isNaN b then NaN
      else if (is_inf a \<and> is_inf b) \<or> (is_zero a \<and> is_zero b) then NaN
      else if is_inf a then signed_inf (is_neg a \<noteq> is_neg b)
      else if is_inf b then signed_zero (is_neg a \<noteq> is_neg b)
      else if is_zero b then signed_inf (is_neg a \<noteq> is_neg b)
      else signed_fin (is_neg a \<noteq> is_neg b) (mag a / mag b))"

text \<open>\<open>a < b\<close>; every comparison with NaN is false, the two zeros are equal.\<close>

fun jlt :: "jsnum \<Rightarrow> jsnum \<Rightarrow> bool" where
  "jlt NaN b = False"
| "jlt a NaN = False"
| "jlt PInf b = False"
| "jlt a NInf = False"
| "jlt NInf b = True"
| "jlt a PInf = True"
| "jlt a b = (fval a < fval b)"

definition jgt :: "jsnum \<Rightarrow> jsnum \<Rightarrow> bool" where
  "jgt a b = jlt b a"

text \<open>\<open>a === b\<close> on numbers.\<close>

definition jeq :: "jsnum \<Rightarrow> jsnum \<Rightarrow> bool" where
  "jeq a b = (if isNaN a \<or> isNaN b then False
              else if is_zero a \<and> is_zero b then True else a = b)"

fun Math_sqrt :: "jsnum \<Rightarrow> jsnum" where
  "Math_sqrt (Fin r) = (if r < 0 then NaN else Fin (sqrt r))"
| "Math_sqrt NZero = NZero"
| "Math_sqrt PInf = PInf"
| "Math_sqrt NInf = NaN"
| "Math_sqrt NaN = NaN"

fun Math_abs :: "jsnum \<Rightarrow> jsnum" where
  "Math_abs (Fin r) = Fin \<bar>r\<bar>"
| "Math_abs NZero = Fin 0"
| "Math_abs PInf = PInf"
| "Math_abs NInf = PInf"
| "Math_abs NaN = NaN"

text \<open>\<open>Math.pow(x, k)\<close> for the exponents the code uses (2, 3 and 4): \<open>k\<close> factors \<open>x\<close>.\<close>

fun Math_pow :: "jsnum \<Rightarrow> nat \<Rightarrow> jsnum" where
  "Math_pow x 0 = Fin 1"
| "Math_pow x (Suc k) = jmul x (Math_pow x k)"

text \<open>\<open>Math.round\<close>: the nearest integer, a tie going up.\<close>

fun Math_round :: "jsnum \<Rightarrow> jsnum" where
  "Math_round (Fin r) = (if - (1/2) \<le> r \<and> r < 0 then NZero else Fin (of_int \<lfloor>r + 1/2\<rfloor>))"
| "Math_round x = x"

text \<open>\<open>Number.isInteger\<close>.\<close>

fun Number_isInteger :: "jsnum \<Rightarrow> bool" where
  "Number_isInteger (Fin r) = (of_int \<lfloor>r\<rfloor> = r)"
| "Number_isInteger NZero = True"
| "Number_isInteger x = False"

text \<open>Truthiness of a number (\<open>!x\<close> is its negation): zero and NaN are falsy.\<close>

definition truthy_num :: "jsnum \<Rightarrow> bool" where
  "truthy_num x = (\<not> isNaN x \<and> \<not> is_zero x)"

text \<open>\<open>arr.reduce((a, b) => a + b, 0)\<close>.\<close>

definition jsum :: "jsnum list \<Rightarrow> jsnum" where
  "jsum xs = foldl jadd (Fin 0) xs"

text \<open>
  \<open>Math.min(...xs)\<close> and \<open>Math.max(...xs)\<close>: NaN as soon as one argument is NaN,
  \<open>+\<infinity>\<close> and \<open>-\<infinity>\<close> on no argument.
\<close>

definition jmin2 :: "jsnum \<Rightarrow> jsnum \<Rightarrow> jsnum" where
  "jmin2 a b = (if isNaN a \<or> isNaN b then NaN
                else if jlt b a \<or> (is_zero a \<and> is_zero b \<and> is_neg b) then b else a)"

definition jmax2 :: "jsnum \<Rightarrow> jsnum \<Rightarrow> jsnum" where
  "jmax2 a b = (if isNaN a \<or> isNaN b then NaN
                else if jlt a b \<or> (is_zero a \<and> is_zero b \<and> is_neg a) then b else a)"

definition Math_min :: "jsnum list \<Rightarrow> jsnum" where
  "Math_min xs = foldl jmin2 PInf xs"

definition Math_max :: "jsnum list \<Rightarrow> jsnum" where
  "Math_max xs = foldl jmax2 NInf xs"

text \<open>
  \<open>xs.sort((a, b) => a - b)\<close> on numbers without NaN: ascending, by insertion (the
  sort is stable, and a difference that is NaN, of two equal infinities, counts as 0).
\<close>

fun insort_num :: "jsnum \<Rightarrow> jsnum list \<Rightarrow> jsnum list" where
  "insort_num x [] = [x]"
| "insort_num x (y # ys) = (if jlt x y then x # y # ys else y # insort_num x ys)"

definition sort_num :: "jsnum list \<Rightarrow> jsnum list" where
  "sort_num xs = foldl (\<lambda>acc x. insort_num x acc) [] xs"

text \<open>
  \<open>arr[i]\<close> read as a number: an index outside the array gives \<open>undefined\<close>, which
  the arithmetic around every such read in this code turns into NaN.
\<close>

definition at_num :: "jsnum list \<Rightarrow> int \<Rightarrow> jsnum" where
  "at_num arr i = (if 0 \<le> i \<and> nat i < length arr then arr ! nat i else NaN)"

section \<open>Strings\<close>

text \<open>
  Strings are sequences of bytes (UTF-8); the character classes below are the ASCII
  ones. JavaScript's \<open>trim\<close> and \<open>\s\<close> also take the Unicode spaces, and
  \<open>toLowerCase\<close> the letters outside ASCII, which are left as they are here.
\<close>

definition is_space :: "char \<Rightarrow> bool" where
  "is_space c = (c \<in> set [CHR '' '', CHR 0x09, CHR 0x0A, CHR 0x0B, CHR 0x0C, CHR 0x0D])"

definition is_digit :: "char \<Rightarrow> bool" where
  "is_digit c = (c \<in> set ''0123456789'')"

definition is_word_char :: "char \<Rightarrow> bool" where
  "is_word_char c =
     (c \<in> set ''abcdefghijklmnopqrstuvwxyzABCDEFGHIJKLMNOPQRSTUVWXYZ0123456789_'')"

definition trim :: "string \<Rightarrow> string" where
  "trim s = rev (dropWhile is_space (rev (dropWhile is_space s)))"

definition lower_char :: "char \<Rightarrow> char" where
  "lower_char c =
     (case map_of (zip ''ABCDEFGHIJKLMNOPQRSTUVWXYZ'' ''abcdefghijklmnopqrstuvwxyz'') c of
        Some d \<Rightarrow> d
      | None \<Rightarrow> c)"

definition toLowerCase :: "string \<Rightarrow> string" where
  "toLowerCase s = map lower_char s"

text \<open>\<open>s.includes(sub)\<close>.\<close>

fun str_includes :: "string \<Rightarrow> string \<Rightarrow> bool" where
  "str_includes [] sub = (sub = [])"
| "str_includes (c # cs) sub = (take (length sub) (c # cs) = sub \<or> str_includes cs sub)"

definition digit_val :: "char \<Rightarrow> nat" where
  "digit_val c = (case map_of (zip ''0123456789'' [0, 1, 2, 3, 4, 5, 6, 7, 8, 9]) c of
                    Some d \<Rightarrow> d
                  | None \<Rightarrow> 0)"

definition int_of_digits :: "string \<Rightarrow> int" where
  "int_of_digits s = foldl (\<lambda>a c. 10 * a + int (digit_val c)) 0 s"

definition digit_char :: "nat \<Rightarrow> char" where
  "digit_char d = ''0123456789'' ! (d mod 10)"

text \<open>The decimal digits of a count, as a template literal \<open>`${n}`\<close> prints it.\<close>

fun show_nat :: "nat \<Rightarrow> string" where
  "show_nat n = (if n < 10 then [digit_char n] else show_nat (n div 10) @ [digit_char (n mod 10)])"

declare show_nat.simps [simp del]

section \<open>Objects\<close>

text \<open>
  An object is the list of its own properties in the order they were created.
  Reading a property that is absent gives \<open>undefined\<close>, here \<open>None\<close>. Parsed rows
  are objects whose values are strings.
\<close>

type_synonym 'v obj = "(string \<times> 'v) list"

type_synonym row = "string obj"

text \<open>\<open>o[k] = v\<close>: an existing property keeps its place, a new one goes last.\<close>

fun obj_set :: "string \<Rightarrow> 'v \<Rightarrow> 'v obj \<Rightarrow> 'v obj" where
  "obj_set k v [] = [(k, v)]"
| "obj_set k v (p # ps) = (if fst p = k then (k, v) # ps else p # obj_set k v ps)"

text \<open>
  The order in which \<open>Object.keys\<close>, \<open>JSON.stringify\<close> and \<open>for ... in\<close> go
  through an object: the keys that are array indices (canonical decimal numerals below
  \<open>2^32 - 1\<close>) first, ascending, then every other key in creation order.
\<close>

definition is_array_index :: "string \<Rightarrow> bool" where
  "is_array_index k =
     (k = ''0'' \<or> (k \<noteq> [] \<and> list_all is_digit k \<and> hd k \<noteq> CHR ''0''
        \<and> length k \<le> 10 \<and> int_of_digits k < 4294967295))"

definition own_props :: "'v obj \<Rightarrow> 'v obj" where
  "own_props ob =
     sort_key (\<lambda>p. int_of_digits (fst p)) (filter (\<lambda>p. is_array_index (fst p)) ob)
     @ filter (\<lambda>p. \<not> is_array_index (fst p)) ob"

definition Object_keys :: "'v obj \<Rightarrow> string list" where
  "Object_keys ob = map fst (own_props ob)"

text \<open>
  \<open>JSON.stringify(row)\<close>, represented by the members the text spells out, in their
  order: two rows have the same text exactly when they have the same members in the
  same order.
\<close>

definition JSON_stringify :: "row \<Rightarrow> (string \<times> string) list" where
  "JSON_stringify r = own_props r"

text \<open>A value is truthy unless it is \<open>undefined\<close> or the empty string.\<close>

fun truthy :: "string option \<Rightarrow> bool" where
  "truthy None = False"
| "truthy (Some s) = (s \<noteq> [])"

text \<open>\<open>val && val.trim() !== ''\<close>.\<close>

fun nonblank :: "string option \<Rightarrow> bool" where
  "nonblank None = False"
| "nonblank (Some s) = (s \<noteq> [] \<and> trim s \<noteq> [])"

text \<open>\<open>!v || v.trim() === '' || v.toLowerCase() === 'null'\<close>: the missing-value test.\<close>

fun isMissing :: "string option \<Rightarrow> bool" where
  "isMissing None = True"
| "isMissing (Some s) = (s = [] \<or> trim s = [] \<or> toLowerCase s = ''null'')"

section \<open>The built-in functions of the runtime\<close>

text \<open>
  The conversions between strings, numbers and dates that the code calls are functions
  of the JavaScript runtime, not of the program: the model takes them as a parameter.
  \<open>Date_parse\<close> is \<open>Date.parse\<close> (also the time value of \<open>new Date(s)\<close>), NaN on a
  string it does not read as a date; \<open>Date_toISODate t\<close> is
  \<open>new Date(t).toISOString().split('T')[0]\<close>; \<open>toNumber\<close> is the coercion of a string
  to a number that \<open>isNaN(s)\<close> performs; \<open>URL_valid s\<close> tells whether \<open>new URL(s)\<close>
  returns.
\<close>

record runtime =
  parseFloat :: "string \<Rightarrow> jsnum"
  toNumber :: "string \<Rightarrow> jsnum"
  Number_toString :: "jsnum \<Rightarrow> string"
  Number_toFixed :: "jsnum \<Rightarrow> nat \<Rightarrow> string"
  Date_parse :: "string \<Rightarrow> jsnum"
  Date_toISODate :: "jsnum \<Rightarrow> string"
  URL_valid :: "string \<Rightarrow> bool"

text \<open>\<open>parseFloat(v)\<close> and \<open>Date.parse(v)\<close> of a value that may be \<open>undefined\<close>.\<close>

fun parseFloat_of :: "runtime \<Rightarrow> string option \<Rightarrow> jsnum" where
  "parseFloat_of rt None = NaN"
| "parseFloat_of rt (Some s) = parseFloat rt s"

fun Date_parse_of :: "runtime \<Rightarrow> string option \<Rightarrow> jsnum" where
  "Date_parse_of rt None = NaN"
| "Date_parse_of rt (Some s) = Date_parse rt s"

section \<open>Helper functions of the analysis\<close>

text \<open>\<open>detectDataType\<close> (server.js, line 1663).\<close>

definition detectDataType :: "runtime \<Rightarrow> string option list \<Rightarrow> string" where
  "detectDataType rt vals =
     (if length vals = 0 then ''unknown''
      else let nonEmptyValues = filter (\<lambda>val. val \<noteq> None \<and> val \<noteq> Some []) vals in
        if length nonEmptyValues = 0 then ''unknown''
        else let numericCount =
                   length (filter (\<lambda>val. \<not> isNaN (parseFloat_of rt val)) nonEmptyValues);
                 numericRatio = real numericCount / real (length nonEmptyValues) in
          if numericRatio > 0.8 then ''numeric''
          else let dateCount =
                     length (filter (\<lambda>val. \<not> isNaN (Date_parse_of rt val)) nonEmptyValues);
                   dateRatio = real dateCount / real (length nonEmptyValues) in
            if dateRatio > 0.8 then ''date'' else ''categorical'')"

text \<open>\<open>calculateStandardDeviation\<close> (line 1682).\<close>

definition calculateStandardDeviation :: "jsnum list \<Rightarrow> jsnum" where
  "calculateStandardDeviation vals =
     (let mean = jdiv (jsum vals) (Fin (real (length vals)));
          variance = jdiv (foldl (\<lambda>sum val. jadd sum (Math_pow (jsub val mean) 2)) (Fin 0) vals)
                          (Fin (real (length vals)))
      in Math_sqrt variance)"

text \<open>
  \<open>percentile\<close>. The file declares the function twice, at line 1698 (it sorts a copy
  of its argument first) and at line 1782 (it takes its argument as already sorted).
  A later function declaration of the same name replaces the earlier one for the
  whole file, so every call, also those above line 1782, runs the second declaration:
  that one is \<open>percentile\<close>; the first is kept as \<open>percentile_1698\<close>.
\<close>

definition percentile :: "jsnum list \<Rightarrow> real \<Rightarrow> jsnum" where
  "percentile sortedArray p =
     (let index = (p / 100) * (real (length sortedArray) - 1) in
      if of_int \<lfloor>index\<rfloor> = index then at_num sortedArray \<lfloor>index\<rfloor>
      else let lower = at_num sortedArray \<lfloor>index\<rfloor>;
               upper = at_num sortedArray \<lceil>index\<rceil>
           in jadd lower (jmul (jsub upper lower) (Fin (index - of_int \<lfloor>index\<rfloor>))))"

definition percentile_1698 :: "jsnum list \<Rightarrow> real \<Rightarrow> jsnum" where
  "percentile_1698 arr p =
     (let sorted = sort_num arr;
          index = (p / 100) * (real (length sorted) - 1);
          lower = \<lfloor>index\<rfloor>;
          upper = \<lceil>index\<rceil>;
          weight = index - of_int \<lfloor>index\<rfloor>
      in if upper \<ge> int (length sorted) then at_num sorted (int (length sorted) - 1)
         else jadd (jmul (at_num sorted lower) (Fin (1 - weight)))
                   (jmul (at_num sorted upper) (Fin weight)))"

text \<open>\<open>detectOutliers\<close> (line 1688).\<close>

definition detectOutliers :: "jsnum list \<Rightarrow> jsnum list" where
  "detectOutliers vals =
     (let Q1 = percentile vals 25;
          Q3 = percentile vals 75;
          IQR = jsub Q3 Q1;
          lowerBound = jsub Q1 (jmul (Fin 1.5) IQR);
          upperBound = jadd Q3 (jmul (Fin 1.5) IQR)
      in filter (\<lambda>val. jlt val lowerBound \<or> jgt val upperBound) vals)"

section \<open>The lodash functions the code calls\<close>

text \<open>\<open>_.uniqBy(array, iteratee)\<close>: the first element of every key, in the array's order.\<close>

fun uniqBy_seen :: "('a \<Rightarrow> 'k) \<Rightarrow> 'k list \<Rightarrow> 'a list \<Rightarrow> 'a list" where
  "uniqBy_seen f seen [] = []"
| "uniqBy_seen f seen (x # xs) =
     (if f x \<in> set seen then uniqBy_seen f seen xs else x # uniqBy_seen f (f x # seen) xs)"

definition uniqBy :: "'a list \<Rightarrow> ('a \<Rightarrow> 'k) \<Rightarrow> 'a list" where
  "uniqBy array f = uniqBy_seen f [] array"

text \<open>\<open>_.countBy(values)\<close>: an object that maps each value to the number of its occurrences.\<close>

definition countBy :: "string list \<Rightarrow> nat obj" where
  "countBy vals =
     foldl (\<lambda>result v. case map_of result v of
                          Some k \<Rightarrow> obj_set v (k + 1) result
                        | None \<Rightarrow> obj_set v 1 result) [] vals"

text \<open>\<open>_.toPairs(object)\<close>: the properties in the order of \<open>Object.keys\<close>.\<close>

definition toPairs :: "'v obj \<Rightarrow> (string \<times> 'v) list" where
  "toPairs ob = own_props ob"

text \<open>
  \<open>_.maxBy(pairs, 1)\<close>: the first pair whose second component is the greatest
  (a later pair replaces the current one only when it is strictly greater);
  \<open>undefined\<close> on no pair.
\<close>

definition maxBy1 :: "(string \<times> nat) list \<Rightarrow> (string \<times> nat) option" where
  "maxBy1 pairs =
     foldl (\<lambda>res p. case res of
                       None \<Rightarrow> Some p
                     | Some b \<Rightarrow> if snd p > snd b then Some p else Some b) None pairs"

section \<open>Cleaning: \<open>cleanCSVData\<close> (line 1409)\<close>

text \<open>
  The parser hands over one object per record of the file; \<open>results\<close> is the array of
  these objects. The store holds the row objects, the address of a row being its
  position in \<open>results\<close>; \<open>cleanedData\<close> is an array of addresses, since
  \<open>[...results]\<close> and \<open>_.uniqBy\<close> copy references to the rows, not the rows.
  An assignment \<open>row[column] = v\<close> writes to the store.
\<close>

type_synonym store = "row list"

definition cell :: "store \<Rightarrow> nat \<Rightarrow> string \<Rightarrow> string option" where
  "cell h a column = map_of (h ! a) column"

definition set_cell :: "store \<Rightarrow> nat \<Rightarrow> string \<Rightarrow> string \<Rightarrow> store" where
  "set_cell h a column v = h[a := obj_set column v (h ! a)]"

text \<open>The strings among values that may be \<open>undefined\<close>.\<close>

fun strings_of :: "string option list \<Rightarrow> string list" where
  "strings_of [] = []"
| "strings_of (None # vs) = strings_of vs"
| "strings_of (Some s # vs) = s # strings_of vs"

text \<open>
  The report that the steps fill in. \<open>processingComplete\<close> and \<open>finalQualityScore\<close>
  are set at the end of the run; until then the report has no such property
  (\<open>False\<close> and \<open>None\<close> here).
\<close>

record cleaningReport =
  stepsApplied :: "string list"
  rowsRemoved :: nat
  valuesImputed :: nat
  outliersTreated :: nat
  duplicatesRemoved :: nat
  processingComplete :: bool
  finalQualityScore :: "jsnum option"

definition push :: "string \<Rightarrow> cleaningReport \<Rightarrow> cleaningReport" where
  "push sentence r = r\<lparr>stepsApplied := stepsApplied r @ [sentence]\<rparr>"

text \<open>Lines 1457 to 1459: the median of the sorted numbers of a column.\<close>

definition medianOf :: "jsnum list \<Rightarrow> jsnum" where
  "medianOf numericValues =
     (if length numericValues mod 2 = 0
      then jdiv (jadd (at_num numericValues (int (length numericValues div 2) - 1))
                      (at_num numericValues (int (length numericValues div 2)))) (Fin 2)
      else at_num numericValues (int (length numericValues div 2)))"

text \<open>
  Lines 1461 and 1471, \<open>missingIndices.forEach\<close>: every missing cell of the column
  gets the value \<open>v\<close>, and every fill increments \<open>valuesImputed\<close>. The state is the
  store and the report.
\<close>

definition fillMissing ::
  "nat list \<Rightarrow> string \<Rightarrow> string \<Rightarrow> nat list \<Rightarrow> store \<times> cleaningReport \<Rightarrow> store \<times> cleaningReport" where
  "fillMissing cleanedData column v missingIndices st =
     fold (\<lambda>index s. (set_cell (fst s) (cleanedData ! index) column v,
                       (snd s)\<lparr>valuesImputed := valuesImputed (snd s) + 1\<rparr>))
       missingIndices st"

text \<open>Lines 1440 to 1445: the positions in \<open>cleanedData\<close> of the rows whose cell is missing.\<close>

definition missingIndicesOf :: "store \<Rightarrow> nat list \<Rightarrow> string \<Rightarrow> nat list" where
  "missingIndicesOf h cleanedData column =
     filter (\<lambda>index. isMissing (cell h (cleanedData ! index) column)) [0..<length cleanedData]"

text \<open>Step 2 (line 1438), the body of \<open>headers.forEach\<close> for one column.\<close>

definition imputeColumn ::
  "runtime \<Rightarrow> nat list \<Rightarrow> string \<Rightarrow> store \<times> cleaningReport \<Rightarrow> store \<times> cleaningReport" where
  "imputeColumn rt cleanedData column st =
     (let missingIndices = missingIndicesOf (fst st) cleanedData column
      in if length missingIndices > 0 then
        (let dataType = detectDataType rt
               (filter nonblank (map (\<lambda>a. cell (fst st) a column) cleanedData))
         in if dataType = ''numeric'' then
           (let numericValues = sort_num (filter (\<lambda>val. \<not> isNaN val)
                  (map (\<lambda>a. parseFloat_of rt (cell (fst st) a column)) cleanedData));
                median = medianOf numericValues
            in fillMissing cleanedData column (Number_toString rt median) missingIndices st)
         else if dataType = ''categorical'' then
           (let vals = strings_of (filter nonblank (map (\<lambda>a. cell (fst st) a column) cleanedData));
                mode = maxBy1 (toPairs (countBy vals))
            in case mode of
                 None \<Rightarrow> st
               | Some m \<Rightarrow> fillMissing cleanedData column (fst m) missingIndices st)
         else st)
      else st)"

text \<open>Step 3 (line 1484): \<open>cleanedData.forEach\<close> on a categorical column, and the column.\<close>

definition lowercaseCell :: "string \<Rightarrow> nat \<Rightarrow> store \<Rightarrow> store" where
  "lowercaseCell column a h =
     (case cell h a column of
        None \<Rightarrow> h
      | Some v \<Rightarrow> if v = [] then h else set_cell h a column (toLowerCase (trim v)))"

definition standardizeColumn :: "runtime \<Rightarrow> nat list \<Rightarrow> string \<Rightarrow> store \<Rightarrow> store" where
  "standardizeColumn rt cleanedData column h =
     (if detectDataType rt (map (\<lambda>a. cell h a column) cleanedData) = ''categorical''
      then fold (lowercaseCell column) cleanedData h
      else h)"

text \<open>
  Step 4 (line 1513), the body of \<open>cleanedData.forEach\<close> for one row: a number
  outside the bounds is replaced by the bound, and \<open>outliersTreated\<close> incremented.
\<close>

definition capCell ::
  "runtime \<Rightarrow> string \<Rightarrow> jsnum \<Rightarrow> jsnum \<Rightarrow> nat \<Rightarrow> store \<times> cleaningReport \<Rightarrow> store \<times> cleaningReport" where
  "capCell rt column lowerBound upperBound a s =
     (let value = parseFloat_of rt (cell (fst s) a column)
      in if \<not> isNaN value then
           (if jlt value lowerBound
            then (set_cell (fst s) a column (Number_toString rt lowerBound),
                  (snd s)\<lparr>outliersTreated := outliersTreated (snd s) + 1\<rparr>)
            else if jgt value upperBound
            then (set_cell (fst s) a column (Number_toString rt upperBound),
                  (snd s)\<lparr>outliersTreated := outliersTreated (snd s) + 1\<rparr>)
            else s)
         else s)"

text \<open>
  Step 4 (line 1497) for one column. \<open>percentile\<close> gets \<open>numericValues\<close> in row
  order.
\<close>

definition capColumn ::
  "runtime \<Rightarrow> nat list \<Rightarrow> string \<Rightarrow> store \<times> cleaningReport \<Rightarrow> store \<times> cleaningReport" where
  "capColumn rt cleanedData column st =
     (let numericValues = filter (\<lambda>val. \<not> isNaN val)
            (map (\<lambda>a. parseFloat_of rt (cell (fst st) a column)) cleanedData)
      in if length numericValues > 0 then
        (let outliers = detectOutliers numericValues
         in if length outliers > 0 then
           (let Q1 = percentile numericValues 25;
                Q3 = percentile numericValues 75;
                IQR = jsub Q3 Q1;
                lowerBound = jsub Q1 (jmul (Fin 1.5) IQR);
                upperBound = jadd Q3 (jmul (Fin 1.5) IQR)
            in fold (capCell rt column lowerBound upperBound) cleanedData st)
         else st)
      else st)"

text \<open>Step 5 (line 1533); \<open>normalizeNumeric\<close> is \<open>options.normalizeNumeric\<close>.\<close>

definition scaleCell :: "runtime \<Rightarrow> string \<Rightarrow> jsnum \<Rightarrow> jsnum \<Rightarrow> nat \<Rightarrow> store \<Rightarrow> store" where
  "scaleCell rt column lo rng a h =
     (let value = parseFloat_of rt (cell h a column)
      in if \<not> isNaN value
         then set_cell h a column (Number_toFixed rt (jdiv (jsub value lo) rng) 4)
         else h)"

definition normalizeColumn :: "runtime \<Rightarrow> bool \<Rightarrow> nat list \<Rightarrow> string \<Rightarrow> store \<Rightarrow> store" where
  "normalizeColumn rt normalizeNumeric cleanedData column h =
     (let numericValues = filter (\<lambda>val. \<not> isNaN val)
            (map (\<lambda>a. parseFloat_of rt (cell h a column)) cleanedData)
      in if length numericValues > 0 \<and> normalizeNumeric then
        (let lo = Math_min numericValues;
             hi = Math_max numericValues;
             rng = jsub hi lo
         in if jgt rng (Fin 0) then fold (scaleCell rt column lo rng) cleanedData h else h)
      else h)"

text \<open>
  Step 6 (line 1557), the body of \<open>cleanedData.forEach\<close> for one row of one column.
  The state is the store and the local counter \<open>typeConversions\<close>.
\<close>

definition convertCell :: "runtime \<Rightarrow> string \<Rightarrow> nat \<Rightarrow> store \<times> nat \<Rightarrow> store \<times> nat" where
  "convertCell rt column a s =
     (case cell (fst s) a column of
        None \<Rightarrow> s
      | Some v \<Rightarrow>
          if v = [] then s
          else
            (let value = trim v
             in if str_includes (toLowerCase column) ''date''
                   \<or> str_includes (toLowerCase column) ''time'' then
                 (let dateValue = Date_parse rt value
                  in if \<not> isNaN dateValue
                     then (set_cell (fst s) a column (Date_toISODate rt dateValue), snd s + 1)
                     else s)
               else if \<not> isNaN (toNumber rt value) \<and> value \<noteq> [] then
                 (let numValue = parseFloat rt value
                  in if Number_isInteger numValue
                     then (set_cell (fst s) a column (Number_toString rt numValue), snd s + 1)
                     else (set_cell (fst s) a column (Number_toFixed rt numValue 2), snd s + 1))
               else if toLowerCase value \<in> set [''true'', ''false'', ''yes'', ''no'', ''1'', ''0''] then
                 (set_cell (fst s) a column
                    (if toLowerCase value \<in> set [''true'', ''yes'', ''1''] then ''true'' else ''false''),
                  snd s + 1)
               else s))"

definition convertTypes :: "runtime \<Rightarrow> string list \<Rightarrow> nat list \<Rightarrow> store \<Rightarrow> store \<times> nat" where
  "convertTypes rt hdrs cleanedData h =
     fold (\<lambda>column s. fold (convertCell rt column) cleanedData s) hdrs (h, 0)"

text \<open>
  Step 7 (line 1595), the body of \<open>cleanedData.forEach\<close> for one row of one column.
  The state is the store and the local counter \<open>validationIssues\<close>. The three checks
  all start from \<open>value\<close>, the cell as it was when the row was reached.
\<close>

definition validateCell :: "runtime \<Rightarrow> string \<Rightarrow> nat \<Rightarrow> store \<times> nat \<Rightarrow> store \<times> nat" where
  "validateCell rt column a s =
     (case cell (fst s) a column of
        None \<Rightarrow> s
      | Some v \<Rightarrow>
          if v = [] then s
          else
            (let s1 = (if isNaN (parseFloat rt v) \<and> \<not> truthy_num (Date_parse rt v) then
                         (let cleaned = trim (filter (\<lambda>c. is_word_char c \<or> is_space c
                                                        \<or> c \<in> set ''-.,'') v)
                          in if cleaned = v then s
                             else (set_cell (fst s) a column cleaned, snd s + 1))
                       else s);
                 s2 = (if str_includes (toLowerCase column) ''email''
                       then (set_cell (fst s1) a column (toLowerCase v), snd s1 + 1)
                       else s1);
                 s3 = (if str_includes (toLowerCase column) ''phone'' then
                         (let phoneClean = filter (\<lambda>c. is_digit c \<or> c \<in> set ''+-()'') v
                          in if phoneClean = v then s2
                             else (set_cell (fst s2) a column phoneClean, snd s2 + 1))
                       else s2)
             in s3))"

definition validateData :: "runtime \<Rightarrow> string list \<Rightarrow> nat list \<Rightarrow> store \<Rightarrow> store \<times> nat" where
  "validateData rt hdrs cleanedData h =
     fold (\<lambda>column s. fold (validateCell rt column) cleanedData s) hdrs (h, 0)"

text \<open>\<open>calculateDataQualityScore\<close> (line 1945), on the rows that \<open>data\<close> refers to.\<close>

definition calculateDataQualityScore :: "row list \<Rightarrow> string list \<Rightarrow> jsnum" where
  "calculateDataQualityScore dat hdrs =
     (if length dat = 0 then Fin 0
      else
        (let totalCells = length dat * length hdrs;
             filledCells = length (concat (map (\<lambda>row. filter (\<lambda>header. nonblank (map_of row header))
                                                   hdrs) dat));
             completenessScore = jmul (jdiv (Fin (real filledCells)) (Fin (real totalCells))) (Fin 100);
             totalScore = jadd (jadd (jadd (jadd (Fin 0) completenessScore) (Fin 85)) (Fin 90)) (Fin 95)
         in Math_round (jdiv totalScore (Fin 4))))"

text \<open>
  The run as a sequence of states: the store, the array \<open>cleanedData\<close> and the report.
  \<open>headersOf\<close> is \<open>Object.keys(results[0] || {})\<close>.
\<close>

record cstate =
  store :: store
  cleanedData :: "nat list"
  rep :: cleaningReport

definition headersOf :: "row list \<Rightarrow> string list" where
  "headersOf results = (case results of [] \<Rightarrow> [] | r # rs \<Rightarrow> Object_keys r)"

definition loaded :: "row list \<Rightarrow> cstate" where
  "loaded results =
     \<lparr>store = results,
      cleanedData = [0..<length results],
      rep = \<lparr>stepsApplied = [], rowsRemoved = 0, valuesImputed = 0, outliersTreated = 0,
             duplicatesRemoved = 0, processingComplete = False, finalQualityScore = None\<rparr>\<rparr>"

text \<open>Step 1 (line 1430).\<close>

definition removeDuplicates :: "cstate \<Rightarrow> cstate" where
  "removeDuplicates s =
     (let beforeDuplicates = length (cleanedData s);
          uniq = uniqBy (cleanedData s) (\<lambda>a. JSON_stringify (store s ! a));
          r = (rep s)\<lparr>duplicatesRemoved := beforeDuplicates - length uniq\<rparr>
      in s\<lparr>cleanedData := uniq,
           rep := (if duplicatesRemoved r > 0
                   then push (''Removed '' @ show_nat (duplicatesRemoved r) @ '' duplicate rows'') r
                   else r)\<rparr>)"

text \<open>Step 2 (line 1438).\<close>

definition handleMissing :: "runtime \<Rightarrow> string list \<Rightarrow> cstate \<Rightarrow> cstate" where
  "handleMissing rt hdrs s =
     (let st = fold (imputeColumn rt (cleanedData s)) hdrs (store s, rep s)
      in s\<lparr>store := fst st,
           rep := (if valuesImputed (snd st) > 0
                   then push (''Imputed '' @ show_nat (valuesImputed (snd st)) @ '' missing values'')
                          (snd st)
                   else snd st)\<rparr>)"

text \<open>Step 3 (line 1484).\<close>

definition standardizeText :: "runtime \<Rightarrow> string list \<Rightarrow> cstate \<Rightarrow> cstate" where
  "standardizeText rt hdrs s =
     s\<lparr>store := fold (standardizeColumn rt (cleanedData s)) hdrs (store s),
       rep := push ''Standardized text format to lowercase'' (rep s)\<rparr>"

text \<open>Step 4 (line 1497).\<close>

definition handleOutliers :: "runtime \<Rightarrow> string list \<Rightarrow> cstate \<Rightarrow> cstate" where
  "handleOutliers rt hdrs s =
     (let st = fold (capColumn rt (cleanedData s)) hdrs (store s, rep s)
      in s\<lparr>store := fst st,
           rep := (if outliersTreated (snd st) > 0
                   then push (''Treated '' @ show_nat (outliersTreated (snd st))
                              @ '' outliers using IQR capping'') (snd st)
                   else snd st)\<rparr>)"

text \<open>Step 5 (line 1533).\<close>

definition normalizeData :: "runtime \<Rightarrow> bool \<Rightarrow> string list \<Rightarrow> cstate \<Rightarrow> cstate" where
  "normalizeData rt normalizeNumeric hdrs s =
     s\<lparr>store := fold (normalizeColumn rt normalizeNumeric (cleanedData s)) hdrs (store s)\<rparr>"

text \<open>Step 6 (line 1557).\<close>

definition convertData :: "runtime \<Rightarrow> string list \<Rightarrow> cstate \<Rightarrow> cstate" where
  "convertData rt hdrs s =
     (let st = convertTypes rt hdrs (cleanedData s) (store s);
          typeConversions = snd st
      in s\<lparr>store := fst st,
           rep := (if typeConversions > 0
                   then push (''Converted '' @ show_nat typeConversions
                              @ '' values to appropriate data types'') (rep s)
                   else rep s)\<rparr>)"

text \<open>Step 7 (line 1595).\<close>

definition checkData :: "runtime \<Rightarrow> string list \<Rightarrow> cstate \<Rightarrow> cstate" where
  "checkData rt hdrs s =
     (let st = validateData rt hdrs (cleanedData s) (store s);
          validationIssues = snd st
      in s\<lparr>store := fst st,
           rep := (if validationIssues > 0
                   then push (''Fixed '' @ show_nat validationIssues @ '' data validation issues'')
                          (rep s)
                   else rep s)\<rparr>)"

text \<open>Lines 1632 to 1635.\<close>

definition completed_message :: string where
  "completed_message =
     [CHR 0xC3, CHR 0xA2, CHR 0xC5, CHR 0x93, CHR 0xE2, CHR 0x80, CHR 0xA6]
     @ '' Comprehensive data processing completed''"

definition finish :: "string list \<Rightarrow> cstate \<Rightarrow> cstate" where
  "finish hdrs s =
     s\<lparr>rep := (push completed_message (rep s))
          \<lparr>processingComplete := True,
           finalQualityScore :=
             Some (calculateDataQualityScore (map (\<lambda>a. store s ! a) (cleanedData s)) hdrs)\<rparr>\<rparr>"

text \<open>The states of the run, each the step's result on the state before.\<close>

definition deduplicated :: "row list \<Rightarrow> cstate" where
  "deduplicated results = removeDuplicates (loaded results)"

definition imputed :: "runtime \<Rightarrow> row list \<Rightarrow> cstate" where
  "imputed rt results = handleMissing rt (headersOf results) (deduplicated results)"

definition textNormalized :: "runtime \<Rightarrow> row list \<Rightarrow> cstate" where
  "textNormalized rt results = standardizeText rt (headersOf results) (imputed rt results)"

definition outliersCapped :: "runtime \<Rightarrow> row list \<Rightarrow> cstate" where
  "outliersCapped rt results = handleOutliers rt (headersOf results) (textNormalized rt results)"

definition normalized :: "runtime \<Rightarrow> bool \<Rightarrow> row list \<Rightarrow> cstate" where
  "normalized rt normalizeNumeric results =
     normalizeData rt normalizeNumeric (headersOf results) (outliersCapped rt results)"

definition typesCoerced :: "runtime \<Rightarrow> bool \<Rightarrow> row list \<Rightarrow> cstate" where
  "typesCoerced rt normalizeNumeric results =
     convertData rt (headersOf results) (normalized rt normalizeNumeric results)"

definition validated :: "runtime \<Rightarrow> bool \<Rightarrow> row list \<Rightarrow> cstate" where
  "validated rt normalizeNumeric results =
     checkData rt (headersOf results) (typesCoerced rt normalizeNumeric results)"

text \<open>
  What \<open>cleanCSVData\<close> resolves to: \<open>data\<close> is the array of (references to) the
  cleaned rows, and \<open>rows\<close> is the store after the run, in which \<open>data\<close> and the
  caller's \<open>results\<close> are read.
\<close>

record cleaned =
  data :: "nat list"
  headers :: "string list"
  report :: cleaningReport
  rows :: store

definition cleanCSVData :: "runtime \<Rightarrow> bool \<Rightarrow> row list \<Rightarrow> cleaned" where
  "cleanCSVData rt normalizeNumeric results =
     (let s = finish (headersOf results) (validated rt normalizeNumeric results)
      in \<lparr>data = cleanedData s, headers = headersOf results, report = rep s, rows = store s\<rparr>)"

text \<open>The table that \<open>data\<close> denotes: the rows at its addresses.\<close>

definition cleanedTable :: "cleaned \<Rightarrow> row list" where
  "cleanedTable c = map (\<lambda>a. rows c ! a) (data c)"



section \<open>Analysis: \<open>analyzeCSVQuality\<close> (line 1247)\<close>

text \<open>\<open>calculateSkewness\<close> (line 1793) and \<open>calculateKurtosis\<close> (line 1800).\<close>

definition calculateSkewness :: "jsnum list \<Rightarrow> jsnum \<Rightarrow> jsnum \<Rightarrow> jsnum" where
  "calculateSkewness vals mean std =
     (if jeq std (Fin 0) then Fin 0
      else
        (let n = Fin (real (length vals));
             sum = foldl (\<lambda>acc val. jadd acc (Math_pow (jdiv (jsub val mean) std) 3)) (Fin 0) vals
         in jmul (jdiv n (jmul (jsub n (Fin 1)) (jsub n (Fin 2)))) sum))"

definition calculateKurtosis :: "jsnum list \<Rightarrow> jsnum \<Rightarrow> jsnum \<Rightarrow> jsnum" where
  "calculateKurtosis vals mean std =
     (if jeq std (Fin 0) then Fin 0
      else
        (let n = Fin (real (length vals));
             sum = foldl (\<lambda>acc val. jadd acc (Math_pow (jdiv (jsub val mean) std) 4)) (Fin 0) vals
         in jsub (jmul (jdiv (jmul n (jadd n (Fin 1)))
                             (jmul (jmul (jsub n (Fin 1)) (jsub n (Fin 2))) (jsub n (Fin 3))))
                       sum)
                 (jdiv (jmul (Fin 3) (Math_pow (jsub n (Fin 1)) 2))
                       (jmul (jsub n (Fin 2)) (jsub n (Fin 3))))))"

text \<open>\<open>detectAdvancedOutliers\<close> (line 1807): the IQR outliers and the z-score outliers.\<close>

definition detectAdvancedOutliers :: "jsnum list \<Rightarrow> jsnum list \<times> jsnum list" where
  "detectAdvancedOutliers vals =
     (let sorted = sort_num vals;
          q1 = percentile sorted 25;
          q3 = percentile sorted 75;
          iqr = jsub q3 q1;
          lowerBound = jsub q1 (jmul (Fin 1.5) iqr);
          upperBound = jadd q3 (jmul (Fin 1.5) iqr);
          mean = jdiv (jsum vals) (Fin (real (length vals)));
          std = calculateStandardDeviation vals
      in (filter (\<lambda>val. jlt val lowerBound \<or> jgt val upperBound) vals,
          filter (\<lambda>val. jgt (Math_abs (jdiv (jsub val mean) std)) (Fin 2.5)) vals))"

text \<open>\<open>calculateCorrelation\<close> (line 1827).\<close>

definition calculateCorrelation :: "runtime \<Rightarrow> row list \<Rightarrow> string \<Rightarrow> string \<Rightarrow> jsnum" where
  "calculateCorrelation rt dat col1 col2 =
     (let pairs = filter (\<lambda>pair. \<not> isNaN (fst pair) \<and> \<not> isNaN (snd pair))
                    (map (\<lambda>row. (parseFloat_of rt (map_of row col1),
                                  parseFloat_of rt (map_of row col2))) dat)
      in if length pairs < 2 then Fin 0
         else
           (let mean1 = jdiv (foldl (\<lambda>sum pair. jadd sum (fst pair)) (Fin 0) pairs)
                             (Fin (real (length pairs)));
                mean2 = jdiv (foldl (\<lambda>sum pair. jadd sum (snd pair)) (Fin 0) pairs)
                             (Fin (real (length pairs)));
                acc = fold (\<lambda>pair (numerator, sum1, sum2).
                              let diff1 = jsub (fst pair) mean1;
                                  diff2 = jsub (snd pair) mean2
                              in (jadd numerator (jmul diff1 diff2),
                                  jadd sum1 (jmul diff1 diff1),
                                  jadd sum2 (jmul diff2 diff2)))
                        pairs (Fin 0, Fin 0, Fin 0);
                numerator = fst acc;
                denominator = Math_sqrt (jmul (fst (snd acc)) (snd (snd acc)))
            in if jeq denominator (Fin 0) then Fin 0 else jdiv numerator denominator))"

text \<open>
  \<open>validateDataPattern\<close> (line 1852). The two regular expressions, written out:
  an email is one \<open>@\<close> with a non-empty part before it and, after it, a part with a dot
  that is neither its first nor its last character, no white space anywhere; a phone
  number, once spaces, hyphens and parentheses are removed, is an optional \<open>+\<close>, a digit
  from 1 to 9, and at most 15 more digits.
\<close>

definition email_ok :: "string \<Rightarrow> bool" where
  "email_ok s =
     (let local_part = takeWhile (\<lambda>c. c \<noteq> CHR ''@'') s;
          rest = dropWhile (\<lambda>c. c \<noteq> CHR ''@'') s
      in local_part \<noteq> [] \<and> rest \<noteq> [] \<and> list_all (\<lambda>c. \<not> is_space c) s
         \<and> CHR ''@'' \<notin> set (tl rest) \<and> CHR ''.'' \<in> set (butlast (tl (tl rest))))"

definition phone_ok :: "string \<Rightarrow> bool" where
  "phone_ok s =
     (let t = filter (\<lambda>c. \<not> is_space c \<and> c \<notin> set ''-()'') s;
          u = (case t of [] \<Rightarrow> [] | c # r \<Rightarrow> if c = CHR ''+'' then r else t)
      in u \<noteq> [] \<and> hd u \<in> set ''123456789'' \<and> list_all is_digit (tl u) \<and> length (tl u) \<le> 15)"

definition validateDataPattern :: "runtime \<Rightarrow> string list \<Rightarrow> string \<Rightarrow> nat" where
  "validateDataPattern rt vals dataType =
     fold (\<lambda>v invalidCount.
        if dataType = ''email'' then (if email_ok v then invalidCount else invalidCount + 1)
        else if dataType = ''phone'' then (if phone_ok v then invalidCount else invalidCount + 1)
        else if dataType = ''date''
          then (if isNaN (Date_parse rt v) then invalidCount + 1 else invalidCount)
        else if dataType = ''numeric''
          then (if isNaN (parseFloat rt v) then invalidCount + 1 else invalidCount)
        else if dataType = ''url'' then (if URL_valid rt v then invalidCount else invalidCount + 1)
        else invalidCount)
       vals 0"

text \<open>
  The report of the analysis. A metric is the number 0 until it is computed and the
  string that \<open>toFixed\<close> prints afterwards. The recommendations, which are derived from
  the other fields once these are complete, are left out.
\<close>

datatype jsval = Num jsnum | Str string

record missingInfo =
  missingCount :: nat
  missingPercentage :: string

record columnSummary =
  count :: nat
  mean :: string
  median :: string
  min_value :: jsnum
  max_value :: jsnum
  std :: string
  q1 :: string
  q3 :: string
  skewness :: string
  kurtosis :: string

record outlierInfo =
  outlierCount :: nat
  iqrOutliers :: "jsnum list"
  zscoreOutliers :: "jsnum list"
  outlierPercentage :: string

record qualityMetrics =
  completeness :: jsval
  consistency :: jsval
  accuracy :: jsval
  validity :: jsval
  uniqueness :: jsval
  overallScore :: jsval

record analysis =
  totalRows :: nat
  totalColumns :: nat
  missingValues :: "missingInfo obj"
  duplicates :: nat
  dataTypes :: "string obj"
  outliers :: "outlierInfo obj"
  summary :: "columnSummary obj"
  correlations :: "(string obj) obj"
  metrics :: qualityMetrics

text \<open>The values of a column that pass \<open>val && val.trim() !== ''\<close>.\<close>

definition columnValues :: "row list \<Rightarrow> string \<Rightarrow> string list" where
  "columnValues results column =
     strings_of (filter nonblank (map (\<lambda>row. map_of row column) results))"

text \<open>The numbers of a column: \<open>parseFloat\<close> of every row's cell, without the NaN.\<close>

definition numericValuesOf :: "runtime \<Rightarrow> row list \<Rightarrow> string \<Rightarrow> jsnum list" where
  "numericValuesOf rt results column =
     filter (\<lambda>val. \<not> isNaN val) (map (\<lambda>row. parseFloat_of rt (map_of row column)) results)"

text \<open>Lines 1329 to 1347: the summary of a numeric column with at least one number.\<close>

definition summaryOf :: "runtime \<Rightarrow> jsnum list \<Rightarrow> columnSummary" where
  "summaryOf rt numericValues =
     (let mean = jdiv (jsum numericValues) (Fin (real (length numericValues)));
          std = calculateStandardDeviation numericValues;
          sorted = sort_num numericValues;
          q1 = percentile sorted 25;
          q3 = percentile sorted 75;
          median = percentile sorted 50
      in \<lparr>count = length numericValues,
          mean = Number_toFixed rt mean 2,
          median = Number_toFixed rt median 2,
          min_value = Math_min numericValues,
          max_value = Math_max numericValues,
          std = Number_toFixed rt std 2,
          q1 = Number_toFixed rt q1 2,
          q3 = Number_toFixed rt q3 2,
          skewness = Number_toFixed rt (calculateSkewness numericValues mean std) 2,
          kurtosis = Number_toFixed rt (calculateKurtosis numericValues mean std) 2\<rparr>)"

text \<open>Lines 1350 to 1356.\<close>

definition outliersOf :: "runtime \<Rightarrow> jsnum list \<Rightarrow> outlierInfo" where
  "outliersOf rt numericValues =
     (let out = detectAdvancedOutliers numericValues
      in \<lparr>outlierCount = length (fst out) + length (snd out),
          iqrOutliers = take 5 (fst out),
          zscoreOutliers = take 5 (snd out),
          outlierPercentage =
            Number_toFixed rt
              (jmul (jdiv (Fin (real (length (fst out) + length (snd out))))
                          (Fin (real (length numericValues)))) (Fin 100)) 2\<rparr>)"

text \<open>Lines 1362 to 1372: the pairs \<open>(i, j)\<close> with \<open>i < j\<close>, in the order of the two loops.\<close>

definition columnPairs :: "string list \<Rightarrow> (string \<times> string) list" where
  "columnPairs numericColumns =
     concat (map (\<lambda>i. map (\<lambda>j. (numericColumns ! i, numericColumns ! j))
                         [i + 1..<length numericColumns])
                 [0..<length numericColumns])"

definition correlationsOf :: "runtime \<Rightarrow> row list \<Rightarrow> string list \<Rightarrow> (string obj) obj" where
  "correlationsOf rt results numericColumns =
     (if length numericColumns > 1 then
        fold (\<lambda>cols corr.
                let correlation = calculateCorrelation rt results (fst cols) (snd cols);
                    inner = (case map_of corr (fst cols) of None \<Rightarrow> [] | Some ob \<Rightarrow> ob)
                in obj_set (fst cols) (obj_set (snd cols) (Number_toFixed rt correlation 3) inner) corr)
          (columnPairs numericColumns) []
      else [])"

text \<open>Lines 1374 to 1383: the validity score, before \<open>Math.max(0, validityScore)\<close>.\<close>

definition validityScoreOf :: "runtime \<Rightarrow> row list \<Rightarrow> string list \<Rightarrow> string obj \<Rightarrow> jsnum" where
  "validityScoreOf rt results hdrs types =
     fold (\<lambda>column validityScore.
             let vals = columnValues results column;
                 invalidCount = validateDataPattern rt vals
                                  (case map_of types column of None \<Rightarrow> ''undefined'' | Some t \<Rightarrow> t)
             in if invalidCount > 0
                then jsub validityScore
                       (jmul (jdiv (Fin (real invalidCount)) (Fin (real (length vals)))) (Fin 20))
                else validityScore)
       hdrs (Fin 100)"

definition initialAnalysis :: analysis where
  "initialAnalysis =
     \<lparr>totalRows = 0, totalColumns = 0, missingValues = [], duplicates = 0, dataTypes = [],
      outliers = [], summary = [], correlations = [],
      metrics = \<lparr>completeness = Num (Fin 0), consistency = Num (Fin 0), accuracy = Num (Fin 0),
                 validity = Num (Fin 0), uniqueness = Num (Fin 0), overallScore = Num (Fin 0)\<rparr>\<rparr>"

definition analyzeCSVQuality :: "runtime \<Rightarrow> row list \<Rightarrow> analysis" where
  "analyzeCSVQuality rt results =
     (case results of
        [] \<Rightarrow> initialAnalysis
      | r # rs \<Rightarrow>
          (let hdrs = Object_keys r;
               missing = map (\<lambda>column. length (filter (\<lambda>row. isMissing (map_of row column)) results)) hdrs;
               missingVals = fold (\<lambda>column ob.
                   let missingCount = length (filter (\<lambda>row. isMissing (map_of row column)) results)
                   in obj_set column
                        \<lparr>missingCount = missingCount,
                         missingPercentage =
                           Number_toFixed rt (jmul (jdiv (Fin (real missingCount))
                                                        (Fin (real (length results)))) (Fin 100)) 2\<rparr> ob)
                 hdrs [];
               totalMissingValues = sum_list missing;
               totalCells = length results * length hdrs;
               completenessStr = Number_toFixed rt
                 (jmul (jdiv (jsub (Fin (real totalCells)) (Fin (real totalMissingValues)))
                             (Fin (real totalCells))) (Fin 100)) 2;
               types = fold (\<lambda>column ob.
                   obj_set column (detectDataType rt (map Some (columnValues results column))) ob)
                 hdrs [];
               consistencyIssues = length (filter (\<lambda>column. map_of types column = Some ''mixed'') hdrs);
               consistencyStr = Number_toFixed rt
                 (jmul (jdiv (jsub (Fin (real (length hdrs))) (Fin (real consistencyIssues)))
                             (Fin (real (length hdrs)))) (Fin 100)) 2;
               uniqueRows = uniqBy results JSON_stringify;
               uniquenessStr = Number_toFixed rt
                 (jmul (jdiv (Fin (real (length uniqueRows))) (Fin (real (length results)))) (Fin 100)) 2;
               numericColumns = filter (\<lambda>column. map_of types column = Some ''numeric'') hdrs;
               summarized = filter (\<lambda>column. length (numericValuesOf rt results column) > 0) numericColumns;
               validityStr = Number_toFixed rt (jmax2 (Fin 0) (validityScoreOf rt results hdrs types)) 2;
               scores = [parseFloat rt completenessStr, parseFloat rt consistencyStr,
                         parseFloat rt validityStr, parseFloat rt uniquenessStr]
           in \<lparr>totalRows = length results,
               totalColumns = length hdrs,
               missingValues = missingVals,
               duplicates = length results - length uniqueRows,
               dataTypes = types,
               outliers = fold (\<lambda>column ob.
                   obj_set column (outliersOf rt (numericValuesOf rt results column)) ob) summarized [],
               summary = fold (\<lambda>column ob.
                   obj_set column (summaryOf rt (numericValuesOf rt results column)) ob) summarized [],
               correlations = correlationsOf rt results numericColumns,
               metrics = \<lparr>completeness = Str completenessStr,
                          consistency = Str consistencyStr,
                          accuracy = Num (Fin 0),
                          validity = Str validityStr,
                          uniqueness = Str uniquenessStr,
                          overallScore = Str (Number_toFixed rt
                            (jdiv (jsum scores) (Fin (real (length scores)))) 2)\<rparr>\<rparr>))"

section \<open>A runtime for evaluation\<close>

text \<open>
  To run the model on a concrete table the built-in functions must be given. This
  runtime reads and prints decimal numerals: \<open>parseFloat\<close> takes the longest prefix
  that is a decimal literal (sign, digits, fraction, exponent) or \<open>Infinity\<close>, after
  leading white space; \<open>toNumber\<close> wants the whole trimmed string to be one (the
  empty string is 0; literals with a radix prefix are not read); \<open>Number_toString\<close>
  and \<open>Number_toFixed\<close> print the decimal expansion (without exponent notation, the
  fraction cut after 17 digits). Its \<open>Date.parse\<close> reads no string as a date, which
  is what Node does on a string without a digit; the evaluations below say so where a
  string with a digit is put to it. No theorem about all tables depends on this
  runtime: those hold for every runtime.
\<close>

definition parse_sign :: "string \<Rightarrow> bool \<times> string" where
  "parse_sign s =
     (case s of
        [] \<Rightarrow> (False, [])
      | c # r \<Rightarrow> if c = CHR ''-'' then (True, r) else if c = CHR ''+'' then (False, r) else (False, s))"

definition parse_exponent :: "string \<Rightarrow> int \<times> string" where
  "parse_exponent s =
     (case s of
        [] \<Rightarrow> (0, s)
      | c # r \<Rightarrow>
          if c = CHR ''e'' \<or> c = CHR ''E'' then
            (let sg = parse_sign r; ds = takeWhile is_digit (snd sg)
             in if ds = [] then (0, s)
                else (if fst sg then - int_of_digits ds else int_of_digits ds,
                      dropWhile is_digit (snd sg)))
          else (0, s))"

definition scale10 :: "real \<Rightarrow> int \<Rightarrow> real" where
  "scale10 m e = (if e \<ge> 0 then m * 10 ^ nat e else m / 10 ^ nat (- e))"

definition parse_decimal :: "string \<Rightarrow> (real \<times> string) option" where
  "parse_decimal s =
     (let ip = takeWhile is_digit s;
          r1 = dropWhile is_digit s;
          fp = (case r1 of [] \<Rightarrow> [] | c # r \<Rightarrow> if c = CHR ''.'' then takeWhile is_digit r else []);
          r2 = (case r1 of [] \<Rightarrow> [] | c # r \<Rightarrow> if c = CHR ''.'' then dropWhile is_digit r else r1)
      in if ip = [] \<and> fp = [] then None
         else (let ex = parse_exponent r2
               in Some (scale10 (real_of_int (int_of_digits ip)
                                 + real_of_int (int_of_digits fp) / 10 ^ length fp) (fst ex),
                        snd ex)))"

definition parseFloat_dec :: "string \<Rightarrow> jsnum" where
  "parseFloat_dec s =
     (let sg = parse_sign (dropWhile is_space s)
      in if take 8 (snd sg) = ''Infinity'' then signed_inf (fst sg)
         else (case parse_decimal (snd sg) of
                 None \<Rightarrow> NaN
               | Some mr \<Rightarrow> signed_fin (fst sg) (fst mr)))"

definition toNumber_dec :: "string \<Rightarrow> jsnum" where
  "toNumber_dec s =
     (let t = trim s
      in if t = [] then Fin 0
         else (let sg = parse_sign t
               in if snd sg = ''Infinity'' then signed_inf (fst sg)
                  else (case parse_decimal (snd sg) of
                          None \<Rightarrow> NaN
                        | Some mr \<Rightarrow> if snd mr = [] then signed_fin (fst sg) (fst mr) else NaN)))"

fun frac_digits :: "nat \<Rightarrow> real \<Rightarrow> string" where
  "frac_digits 0 f = []"
| "frac_digits (Suc k) f =
     (if f = 0 then []
      else digit_char (nat \<lfloor>f * 10\<rfloor>) # frac_digits k (f * 10 - of_int \<lfloor>f * 10\<rfloor>))"

fun Number_toString_dec :: "jsnum \<Rightarrow> string" where
  "Number_toString_dec NaN = ''NaN''"
| "Number_toString_dec PInf = ''Infinity''"
| "Number_toString_dec NInf = ''-Infinity''"
| "Number_toString_dec NZero = ''0''"
| "Number_toString_dec (Fin r) =
     (if r < 0 then ''-'' else []) @ show_nat (nat \<lfloor>\<bar>r\<bar>\<rfloor>)
     @ (if \<bar>r\<bar> = of_int \<lfloor>\<bar>r\<bar>\<rfloor> then []
        else ''.'' @ frac_digits 17 (\<bar>r\<bar> - of_int \<lfloor>\<bar>r\<bar>\<rfloor>))"

definition fixed_digits :: "real \<Rightarrow> nat \<Rightarrow> string" where
  "fixed_digits m k =
     (let n = nat \<lfloor>m * 10 ^ k + 1 / 2\<rfloor>;
          fp = show_nat (n mod 10 ^ k)
      in show_nat (n div 10 ^ k)
         @ (if k = 0 then [] else ''.'' @ replicate (k - length fp) (CHR ''0'') @ fp))"

fun Number_toFixed_dec :: "jsnum \<Rightarrow> nat \<Rightarrow> string" where
  "Number_toFixed_dec NaN k = ''NaN''"
| "Number_toFixed_dec PInf k = ''Infinity''"
| "Number_toFixed_dec NInf k = ''-Infinity''"
| "Number_toFixed_dec NZero k = fixed_digits 0 k"
| "Number_toFixed_dec (Fin r) k = (if r < 0 then ''-'' else []) @ fixed_digits \<bar>r\<bar> k"

definition decimal_runtime :: runtime where
  "decimal_runtime =
     \<lparr>parseFloat = parseFloat_dec,
      toNumber = toNumber_dec,
      Number_toString = Number_toString_dec,
      Number_toFixed = Number_toFixed_dec,
      Date_parse = (\<lambda>s. NaN),
      Date_toISODate = (\<lambda>t. []),
      URL_valid = (\<lambda>s. False)\<rparr>"


section \<open>The assignments of a step\<close>

text \<open>
  What the steps of \<open>cleanCSVData\<close> that have a counter do to the cells, said without
  the loops: the list of the assignments \<open>row[column] = v\<close> that a step makes, in the
  order in which it makes them, as a function of the store in which the step starts.
  An assignment is the address of the row, the column and the value. These
  definitions follow the words of the report (a step assigns, a step counts); the
  theorems compare them with the loops of the code.
\<close>

type_synonym assignment = "nat \<times> string \<times> string"

definition assign :: "assignment \<Rightarrow> store \<Rightarrow> store" where
  "assign w h = set_cell h (fst w) (fst (snd w)) (snd (snd w))"

definition apply_assignments :: "assignment list \<Rightarrow> store \<Rightarrow> store" where
  "apply_assignments ws h = fold assign ws h"

text \<open>
  The assignments to one column when the cell of every row of \<open>cleanedData\<close> (the addresses \<open>cd\<close>), from
  the first to the last, is assigned the values \<open>f\<close> gives for what the cell holds
  (no value: the cell is not assigned).
\<close>

definition cellAssignments ::
  "(string option \<Rightarrow> string list) \<Rightarrow> store \<Rightarrow> nat list \<Rightarrow> string \<Rightarrow> assignment list" where
  "cellAssignments f h cd column =
     concat (map (\<lambda>a. map (\<lambda>v. (a, column, v)) (f (cell h a column))) cd)"










text \<open>The assignments of a whole step: those to the first column, then the second, ...\<close>

definition stepAssignments :: "(string \<Rightarrow> assignment list) \<Rightarrow> string list \<Rightarrow> assignment list" where
  "stepAssignments columnAssignments hdrs = concat (map columnAssignments hdrs)"

section \<open>Notions used in the proofs\<close>

text \<open>
  \<open>frame A h h'\<close>: the store \<open>h'\<close> has the rows of \<open>h\<close>, changed at most at the
  addresses in \<open>A\<close>. \<open>only_imputed r r'\<close> and \<open>only_treated r r'\<close>: the report
  \<open>r'\<close> is \<open>r\<close> with the one counter raised.
\<close>

definition frame :: "nat set \<Rightarrow> store \<Rightarrow> store \<Rightarrow> bool" where
  "frame A h h' = (length h' = length h \<and> (\<forall>a. a \<notin> A \<longrightarrow> h' ! a = h ! a))"

definition only_imputed :: "cleaningReport \<Rightarrow> cleaningReport \<Rightarrow> bool" where
  "only_imputed r r' =
     (r' = r\<lparr>valuesImputed := valuesImputed r'\<rparr> \<and> valuesImputed r \<le> valuesImputed r')"

definition only_treated :: "cleaningReport \<Rightarrow> cleaningReport \<Rightarrow> bool" where
  "only_treated r r' =
     (r' = r\<lparr>outliersTreated := outliersTreated r'\<rparr> \<and> outliersTreated r \<le> outliersTreated r')"

lemma uniqBy_seen_filter:
  "uniqBy_seen f seen xs =
     map (\<lambda>i. xs ! i)
       (filter (\<lambda>i. f (xs ! i) \<notin> set seen \<and> f (xs ! i) \<notin> f ` set (take i xs)) [0..<length xs])"
proof (induction xs arbitrary: seen)
  case Nil
  then show ?case by simp
next
  case (Cons x xs)
  have upt: "[0..<length (x # xs)] = 0 # map Suc [0..<length xs]"
    by (simp add: upt_conv_Cons map_Suc_upt del: upt_Suc)
  show ?case
  proof (cases "f x \<in> set seen")
    case True
    have "filter (\<lambda>i. f (xs ! i) \<notin> set seen \<and> f (xs ! i) \<noteq> f x \<and> f (xs ! i) \<notin> f ` set (take i xs))
            [0..<length xs]
        = filter (\<lambda>i. f (xs ! i) \<notin> set seen \<and> f (xs ! i) \<notin> f ` set (take i xs)) [0..<length xs]"
      using True by (intro filter_cong) auto
    then show ?thesis
      using True by (simp only: upt) (simp add: filter_map comp_def Cons.IH)
  next
    case False
    then show ?thesis
      by (simp only: upt) (simp add: filter_map comp_def Cons.IH conj_left_commute)
  qed
qed

lemma uniqBy_seen_keys:
  "distinct (map f (uniqBy_seen f seen xs)) \<and> set (map f (uniqBy_seen f seen xs)) = f ` set xs - set seen"
  by (induction xs arbitrary: seen) auto

lemma length_uniqBy: "length (uniqBy xs f) = card (f ` set xs)"
proof -
  have d: "distinct (map f (uniqBy xs f))" and s: "set (map f (uniqBy xs f)) = f ` set xs"
    using uniqBy_seen_keys [of f "[]" xs] by (simp_all add: uniqBy_def)
  have "card (set (map f (uniqBy xs f))) = length (map f (uniqBy xs f))"
    using d by (rule distinct_card)
  then show ?thesis using s by simp
qed

lemma uniqBy_upt:
  "uniqBy [0..<length h] (\<lambda>a. g (h ! a)) =
     filter (\<lambda>a. g (h ! a) \<notin> g ` set (take a h)) [0..<length h]"
proof -
  have img: "(\<lambda>a. g (h ! a)) ` {0..<i} = g ` set (take i h)"
    if "i < length h" for i
  proof -
    have "set (take i h) = (!) h ` {0..<i}"
      using that by (simp add: nth_image)
    then show ?thesis by (simp add: image_image)
  qed
  have idx: "map (\<lambda>i. [0..<length h] ! i) ys = ys" if "set ys \<subseteq> {..<length h}" for ys
    using that by (induction ys) auto
  have "uniqBy [0..<length h] (\<lambda>a. g (h ! a)) =
      map (\<lambda>i. [0..<length h] ! i)
        (filter (\<lambda>i. g (h ! ([0..<length h] ! i)) \<notin> set []
                  \<and> g (h ! ([0..<length h] ! i)) \<notin> (\<lambda>a. g (h ! a)) ` set (take i [0..<length h]))
           [0..<length [0..<length h]])"
    unfolding uniqBy_def by (rule uniqBy_seen_filter)
  also have "filter (\<lambda>i. g (h ! ([0..<length h] ! i)) \<notin> set []
                  \<and> g (h ! ([0..<length h] ! i)) \<notin> (\<lambda>a. g (h ! a)) ` set (take i [0..<length h]))
           [0..<length [0..<length h]]
         = filter (\<lambda>a. g (h ! a) \<notin> g ` set (take a h)) [0..<length h]"
    by (rule filter_cong) (simp_all add: img)
  also have "map (\<lambda>i. [0..<length h] ! i) (filter (\<lambda>a. g (h ! a) \<notin> g ` set (take a h)) [0..<length h])
      = filter (\<lambda>a. g (h ! a) \<notin> g ` set (take a h)) [0..<length h]"
    by (rule idx) auto
  finally show ?thesis .
qed

lemma only_imputed_refl [simp]: "only_imputed r r"
  by (simp add: only_imputed_def)

lemma only_imputed_trans:
  assumes "only_imputed r r'" and "only_imputed r' r''"
  shows "only_imputed r r''"
proof -
  from assms have a: "r' = r\<lparr>valuesImputed := valuesImputed r'\<rparr>"
    and b: "r'' = r'\<lparr>valuesImputed := valuesImputed r''\<rparr>"
    and c: "valuesImputed r \<le> valuesImputed r''"
    by (auto simp: only_imputed_def)
  have "r'' = (r\<lparr>valuesImputed := valuesImputed r'\<rparr>)\<lparr>valuesImputed := valuesImputed r''\<rparr>"
    by (subst b, subst a) simp
  then have "r'' = r\<lparr>valuesImputed := valuesImputed r''\<rparr>" by simp
  with c show ?thesis by (simp add: only_imputed_def)
qed

lemma only_imputed_step [simp]:
  "valuesImputed r \<le> k \<Longrightarrow> only_imputed r (r\<lparr>valuesImputed := k\<rparr>)"
  by (simp add: only_imputed_def)

lemma only_treated_refl [simp]: "only_treated r r"
  by (simp add: only_treated_def)

lemma only_treated_trans:
  assumes "only_treated r r'" and "only_treated r' r''"
  shows "only_treated r r''"
proof -
  from assms have a: "r' = r\<lparr>outliersTreated := outliersTreated r'\<rparr>"
    and b: "r'' = r'\<lparr>outliersTreated := outliersTreated r''\<rparr>"
    and c: "outliersTreated r \<le> outliersTreated r''"
    by (auto simp: only_treated_def)
  have "r'' = (r\<lparr>outliersTreated := outliersTreated r'\<rparr>)\<lparr>outliersTreated := outliersTreated r''\<rparr>"
    by (subst b, subst a) simp
  then have "r'' = r\<lparr>outliersTreated := outliersTreated r''\<rparr>" by simp
  with c show ?thesis by (simp add: only_treated_def)
qed

lemma only_treated_step [simp]:
  "outliersTreated r \<le> k \<Longrightarrow> only_treated r (r\<lparr>outliersTreated := k\<rparr>)"
  by (simp add: only_treated_def)

lemma push_fields [simp]:
  "stepsApplied (push x r) = stepsApplied r @ [x]"
  "duplicatesRemoved (push x r) = duplicatesRemoved r"
  "valuesImputed (push x r) = valuesImputed r"
  "outliersTreated (push x r) = outliersTreated r"
  "rowsRemoved (push x r) = rowsRemoved r"
  by (simp_all add: push_def)

subsection \<open>Folds\<close>

lemma fold_rel:
  assumes "\<And>r. R r r" and "\<And>a b c. R a b \<Longrightarrow> R b c \<Longrightarrow> R a c"
    and "\<And>x s. R (q s) (q (g x s))"
  shows "R (q s) (q (fold g xs s))"
proof (induction xs arbitrary: s)
  case Nil
  show ?case by (simp add: assms(1))
next
  case (Cons x xs)
  have "R (q s) (q (g x s))" by (rule assms(3))
  moreover have "R (q (g x s)) (q (fold g xs (g x s)))" by (rule Cons.IH)
  ultimately show ?case using assms(2) by auto
qed

lemma fold_counter_mono:
  assumes "\<And>x s. (m s :: nat) \<le> m (g x s)"
  shows "m s \<le> m (fold g xs s)"
proof (induction xs arbitrary: s)
  case Nil
  show ?case by simp
next
  case (Cons x xs)
  have "m s \<le> m (g x s)" by (rule assms)
  also have "\<dots> \<le> m (fold g xs (g x s))" by (rule Cons.IH)
  finally show ?case by simp
qed

lemma fold_counter_same:
  assumes mono: "\<And>x s. (m s :: nat) \<le> m (g x s)"
    and same: "\<And>x s. m (g x s) = m s \<Longrightarrow> g x s = s"
    and eq: "m (fold g xs s) = m s"
  shows "fold g xs s = s"
  using eq
proof (induction xs arbitrary: s)
  case Nil
  show ?case by simp
next
  case (Cons x xs)
  have a: "m s \<le> m (g x s)" by (rule mono)
  have b: "m (g x s) \<le> m (fold g xs (g x s))" by (rule fold_counter_mono) (rule mono)
  from Cons.prems have c: "m (fold g xs (g x s)) = m s" by simp
  from a b c have d: "m (g x s) = m s" and e: "m (fold g xs (g x s)) = m (g x s)" by simp_all
  from d have "g x s = s" by (rule same)
  moreover from e have "fold g xs (g x s) = g x s" by (rule Cons.IH)
  ultimately show ?case by simp
qed

subsection \<open>The frame of the writes\<close>

lemma frame_refl [simp]: "frame A h h"
  by (simp add: frame_def)

lemma frame_trans: "frame A h h' \<Longrightarrow> frame A h' h'' \<Longrightarrow> frame A h h''"
  by (simp add: frame_def)

lemma frame_set_cell:
  assumes "a \<in> A"
  shows "frame A h (set_cell h a column v)"
proof -
  have "h[a := r] ! b = h ! b" if "b \<notin> A" for b r
  proof -
    from that assms have "a \<noteq> b" by auto
    then show ?thesis by simp
  qed
  then show ?thesis by (simp add: frame_def set_cell_def)
qed

lemma frame_set_cell_after:
  "frame A h h' \<Longrightarrow> a \<in> A \<Longrightarrow> frame A h (set_cell h' a column v)"
  by (blast intro: frame_trans frame_set_cell)

lemma fold_frame:
  assumes "\<And>x s. x \<in> set xs \<Longrightarrow> frame A (p s) (p (g x s))"
  shows "frame A (p s) (p (fold g xs s))"
  using assms
proof (induction xs arbitrary: s)
  case Nil
  show ?case by simp
next
  case (Cons x xs)
  have "frame A (p s) (p (g x s))" by (rule Cons.prems) simp
  moreover have "frame A (p (g x s)) (p (fold g xs (g x s)))"
    by (rule Cons.IH) (simp add: Cons.prems)
  ultimately show ?case by (auto intro: frame_trans)
qed

subsection \<open>Step 2\<close>

lemma fillMissing_snd:
  "snd (fillMissing cd column v mi st)
     = (snd st)\<lparr>valuesImputed := valuesImputed (snd st) + length mi\<rparr>"
  unfolding fillMissing_def by (induction mi arbitrary: st) simp_all

lemma fillMissing_frame:
  assumes "\<And>i. i \<in> set mi \<Longrightarrow> cd ! i \<in> A"
  shows "frame A (fst st) (fst (fillMissing cd column v mi st))"
  unfolding fillMissing_def
  by (rule fold_frame) (simp add: frame_set_cell assms)

lemma imputeColumn_shape:
  "imputeColumn rt cd column st = st \<or>
   (missingIndicesOf (fst st) cd column \<noteq> [] \<and>
    (\<exists>v. imputeColumn rt cd column st
           = fillMissing cd column v (missingIndicesOf (fst st) cd column) st))"
  unfolding imputeColumn_def Let_def
  by (auto split: option.split)

lemma missingIndicesOf_range: "i \<in> set (missingIndicesOf h cd column) \<Longrightarrow> i < length cd"
  by (simp add: missingIndicesOf_def)

lemma imputeColumn_frame: "frame (set cd) (fst st) (fst (imputeColumn rt cd column st))"
  using imputeColumn_shape [of rt cd column st]
  by (auto intro!: fillMissing_frame nth_mem dest: missingIndicesOf_range)

lemma imputeColumn_report: "only_imputed (snd st) (snd (imputeColumn rt cd column st))"
  using imputeColumn_shape [of rt cd column st]
  by (auto simp: fillMissing_snd)

lemma imputeColumn_mono: "valuesImputed (snd st) \<le> valuesImputed (snd (imputeColumn rt cd column st))"
  using imputeColumn_report [of st rt cd column] by (simp add: only_imputed_def)

lemma imputeColumn_same:
  assumes "valuesImputed (snd (imputeColumn rt cd column st)) = valuesImputed (snd st)"
  shows "imputeColumn rt cd column st = st"
proof (rule ccontr)
  assume ne: "imputeColumn rt cd column st \<noteq> st"
  with imputeColumn_shape [of rt cd column st]
  obtain v where mi: "missingIndicesOf (fst st) cd column \<noteq> []"
    and eq: "imputeColumn rt cd column st
             = fillMissing cd column v (missingIndicesOf (fst st) cd column) st"
    by auto
  have "valuesImputed (snd (imputeColumn rt cd column st))
      = valuesImputed (snd st) + length (missingIndicesOf (fst st) cd column)"
    by (simp add: eq fillMissing_snd)
  with mi assms show False by simp
qed

lemma fold_imputeColumn_frame:
  "frame (set cd) (fst st) (fst (fold (imputeColumn rt cd) hdrs st))"
  by (rule fold_frame) (rule imputeColumn_frame)

lemma fold_imputeColumn_report:
  "only_imputed (snd st) (snd (fold (imputeColumn rt cd) hdrs st))"
  by (rule fold_rel [where R = only_imputed]) (auto intro: only_imputed_trans imputeColumn_report)

lemma fold_imputeColumn_same:
  assumes "valuesImputed (snd (fold (imputeColumn rt cd) hdrs st)) = valuesImputed (snd st)"
  shows "fold (imputeColumn rt cd) hdrs st = st"
  using imputeColumn_mono imputeColumn_same assms
  by (rule fold_counter_same [where m = "\<lambda>s. valuesImputed (snd s)"])

subsection \<open>Step 3\<close>

lemma lowercaseCell_frame: "a \<in> A \<Longrightarrow> frame A h (lowercaseCell column a h)"
  by (simp add: lowercaseCell_def frame_set_cell split: option.split)

lemma standardizeColumn_frame: "frame (set cd) h (standardizeColumn rt cd column h)"
  unfolding standardizeColumn_def
  using fold_frame [where p = "\<lambda>h. h" and g = "lowercaseCell column" and xs = cd and A = "set cd"]
  by (simp add: lowercaseCell_frame)

subsection \<open>Step 4\<close>

lemma capCell_frame: "a \<in> A \<Longrightarrow> frame A (fst s) (fst (capCell rt column lo hi a s))"
  by (simp add: capCell_def Let_def frame_set_cell)

lemma capCell_report: "only_treated (snd s) (snd (capCell rt column lo hi a s))"
  by (simp add: capCell_def Let_def)

lemma capCell_mono: "outliersTreated (snd s) \<le> outliersTreated (snd (capCell rt column lo hi a s))"
  using capCell_report [of s rt column lo hi a] by (simp add: only_treated_def)

lemma capCell_same:
  "outliersTreated (snd (capCell rt column lo hi a s)) = outliersTreated (snd s)
   \<Longrightarrow> capCell rt column lo hi a s = s"
  by (cases s) (auto simp: capCell_def Let_def split: if_splits)

lemma capColumn_shape:
  "capColumn rt cd column st = st \<or>
   (\<exists>lo hi. capColumn rt cd column st = fold (capCell rt column lo hi) cd st)"
  unfolding capColumn_def Let_def by auto

lemma capColumn_frame: "frame (set cd) (fst st) (fst (capColumn rt cd column st))"
proof -
  have "frame (set cd) (fst st) (fst (fold (capCell rt column lo hi) cd st))" for lo hi
    by (rule fold_frame) (rule capCell_frame)
  then show ?thesis using capColumn_shape [of rt cd column st] by auto
qed

lemma capColumn_report: "only_treated (snd st) (snd (capColumn rt cd column st))"
proof -
  have "only_treated (snd st) (snd (fold (capCell rt column lo hi) cd st))" for lo hi
    by (rule fold_rel [where R = only_treated]) (auto intro: only_treated_trans capCell_report)
  then show ?thesis using capColumn_shape [of rt cd column st] by auto
qed

lemma capColumn_mono: "outliersTreated (snd st) \<le> outliersTreated (snd (capColumn rt cd column st))"
  using capColumn_report [of st rt cd column] by (simp add: only_treated_def)

lemma capColumn_same:
  assumes "outliersTreated (snd (capColumn rt cd column st)) = outliersTreated (snd st)"
  shows "capColumn rt cd column st = st"
proof -
  have "fold (capCell rt column lo hi) cd st = st"
    if "outliersTreated (snd (fold (capCell rt column lo hi) cd st)) = outliersTreated (snd st)"
    for lo hi
    using capCell_mono capCell_same that
    by (rule fold_counter_same [where m = "\<lambda>s. outliersTreated (snd s)"])
  then show ?thesis using capColumn_shape [of rt cd column st] assms by metis
qed

lemma fold_capColumn_frame:
  "frame (set cd) (fst st) (fst (fold (capColumn rt cd) hdrs st))"
  by (rule fold_frame) (rule capColumn_frame)

lemma fold_capColumn_report:
  "only_treated (snd st) (snd (fold (capColumn rt cd) hdrs st))"
  by (rule fold_rel [where R = only_treated]) (auto intro: only_treated_trans capColumn_report)

lemma fold_capColumn_same:
  assumes "outliersTreated (snd (fold (capColumn rt cd) hdrs st)) = outliersTreated (snd st)"
  shows "fold (capColumn rt cd) hdrs st = st"
  using capColumn_mono capColumn_same assms
  by (rule fold_counter_same [where m = "\<lambda>s. outliersTreated (snd s)"])

subsection \<open>Step 5\<close>

lemma scaleCell_frame: "a \<in> A \<Longrightarrow> frame A h (scaleCell rt column lo rng a h)"
  by (simp add: scaleCell_def Let_def frame_set_cell)

lemma normalizeColumn_frame: "frame (set cd) h (normalizeColumn rt nn cd column h)"
proof -
  have "frame (set cd) h (fold (scaleCell rt column lo rng) cd h)" for lo rng
    using fold_frame [where p = "\<lambda>h. h" and g = "scaleCell rt column lo rng" and xs = cd
        and A = "set cd"]
    by (simp add: scaleCell_frame)
  then show ?thesis by (simp add: normalizeColumn_def Let_def)
qed

subsection \<open>Steps 6 and 7\<close>

lemma convertCell_frame: "a \<in> A \<Longrightarrow> frame A (fst s) (fst (convertCell rt column a s))"
  by (simp add: convertCell_def Let_def frame_set_cell split: option.split)

lemma convertCell_mono: "snd s \<le> snd (convertCell rt column a s)"
  by (simp add: convertCell_def Let_def split: option.split)

lemma convertCell_same: "snd (convertCell rt column a s) = snd s \<Longrightarrow> convertCell rt column a s = s"
  by (cases s) (auto simp: convertCell_def Let_def split: option.splits if_splits)

lemma validateCell_frame: "a \<in> A \<Longrightarrow> frame A (fst s) (fst (validateCell rt column a s))"
  by (auto simp: validateCell_def Let_def split: option.split
      intro!: frame_set_cell_after)

lemma validateCell_mono: "snd s \<le> snd (validateCell rt column a s)"
  by (simp add: validateCell_def Let_def split: option.split)

lemma validateCell_same: "snd (validateCell rt column a s) = snd s \<Longrightarrow> validateCell rt column a s = s"
  by (cases s) (auto simp: validateCell_def Let_def split: option.splits if_splits)

lemma only_imputed_fields:
  assumes "only_imputed r r'"
  shows "stepsApplied r' = stepsApplied r" "duplicatesRemoved r' = duplicatesRemoved r"
    "outliersTreated r' = outliersTreated r" "rowsRemoved r' = rowsRemoved r"
proof -
  from assms have eq: "r' = r\<lparr>valuesImputed := valuesImputed r'\<rparr>"
    by (simp add: only_imputed_def)
  show "stepsApplied r' = stepsApplied r" by (subst eq) simp
  show "duplicatesRemoved r' = duplicatesRemoved r" by (subst eq) simp
  show "outliersTreated r' = outliersTreated r" by (subst eq) simp
  show "rowsRemoved r' = rowsRemoved r" by (subst eq) simp
qed

lemma only_treated_fields:
  assumes "only_treated r r'"
  shows "stepsApplied r' = stepsApplied r" "duplicatesRemoved r' = duplicatesRemoved r"
    "valuesImputed r' = valuesImputed r" "rowsRemoved r' = rowsRemoved r"
proof -
  from assms have eq: "r' = r\<lparr>outliersTreated := outliersTreated r'\<rparr>"
    by (simp add: only_treated_def)
  show "stepsApplied r' = stepsApplied r" by (subst eq) simp
  show "duplicatesRemoved r' = duplicatesRemoved r" by (subst eq) simp
  show "valuesImputed r' = valuesImputed r" by (subst eq) simp
  show "rowsRemoved r' = rowsRemoved r" by (subst eq) simp
qed

subsection \<open>The steps on states\<close>

lemma removeDuplicates_fields:
  "store (removeDuplicates s) = store s"
  "cleanedData (removeDuplicates s) = uniqBy (cleanedData s) (\<lambda>a. JSON_stringify (store s ! a))"
  "duplicatesRemoved (rep (removeDuplicates s))
     = length (cleanedData s) - length (uniqBy (cleanedData s) (\<lambda>a. JSON_stringify (store s ! a)))"
  "valuesImputed (rep (removeDuplicates s)) = valuesImputed (rep s)"
  "outliersTreated (rep (removeDuplicates s)) = outliersTreated (rep s)"
  "stepsApplied (rep (removeDuplicates s))
     = stepsApplied (rep s)
       @ (if duplicatesRemoved (rep (removeDuplicates s)) > 0
          then [''Removed '' @ show_nat (duplicatesRemoved (rep (removeDuplicates s)))
                @ '' duplicate rows'']
          else [])"
  by (simp_all add: removeDuplicates_def Let_def)

lemma handleMissing_fields:
  "cleanedData (handleMissing rt hdrs s) = cleanedData s"
  "frame (set (cleanedData s)) (store s) (store (handleMissing rt hdrs s))"
  "duplicatesRemoved (rep (handleMissing rt hdrs s)) = duplicatesRemoved (rep s)"
  "outliersTreated (rep (handleMissing rt hdrs s)) = outliersTreated (rep s)"
  "valuesImputed (rep s) \<le> valuesImputed (rep (handleMissing rt hdrs s))"
  "stepsApplied (rep (handleMissing rt hdrs s))
     = stepsApplied (rep s)
       @ (if valuesImputed (rep (handleMissing rt hdrs s)) > 0
          then [''Imputed '' @ show_nat (valuesImputed (rep (handleMissing rt hdrs s)))
                @ '' missing values'']
          else [])"
proof -
  let ?st = "fold (imputeColumn rt (cleanedData s)) hdrs (store s, rep s)"
  have r: "only_imputed (rep s) (snd ?st)"
    using fold_imputeColumn_report [of "(store s, rep s)" rt "cleanedData s" hdrs] by simp
  have f: "frame (set (cleanedData s)) (store s) (fst ?st)"
    using fold_imputeColumn_frame [of "cleanedData s" "(store s, rep s)" rt hdrs] by simp
  show "cleanedData (handleMissing rt hdrs s) = cleanedData s"
    by (simp add: handleMissing_def Let_def)
  show "frame (set (cleanedData s)) (store s) (store (handleMissing rt hdrs s))"
    using f by (simp add: handleMissing_def Let_def)
  show "duplicatesRemoved (rep (handleMissing rt hdrs s)) = duplicatesRemoved (rep s)"
    using only_imputed_fields [OF r] by (simp add: handleMissing_def Let_def)
  show "outliersTreated (rep (handleMissing rt hdrs s)) = outliersTreated (rep s)"
    using only_imputed_fields [OF r] by (simp add: handleMissing_def Let_def)
  show "valuesImputed (rep s) \<le> valuesImputed (rep (handleMissing rt hdrs s))"
    using r by (simp add: handleMissing_def Let_def only_imputed_def)
  show "stepsApplied (rep (handleMissing rt hdrs s))
     = stepsApplied (rep s)
       @ (if valuesImputed (rep (handleMissing rt hdrs s)) > 0
          then [''Imputed '' @ show_nat (valuesImputed (rep (handleMissing rt hdrs s)))
                @ '' missing values'']
          else [])"
    using only_imputed_fields [OF r] by (simp add: handleMissing_def Let_def)
qed

lemma handleMissing_same:
  assumes "valuesImputed (rep (handleMissing rt hdrs s)) = valuesImputed (rep s)"
  shows "store (handleMissing rt hdrs s) = store s"
proof -
  let ?st = "fold (imputeColumn rt (cleanedData s)) hdrs (store s, rep s)"
  from assms have "valuesImputed (snd ?st) = valuesImputed (snd (store s, rep s))"
    by (simp add: handleMissing_def Let_def split: if_splits)
  then have "?st = (store s, rep s)" by (rule fold_imputeColumn_same)
  then show ?thesis by (simp add: handleMissing_def Let_def)
qed

lemma standardizeText_fields:
  "cleanedData (standardizeText rt hdrs s) = cleanedData s"
  "frame (set (cleanedData s)) (store s) (store (standardizeText rt hdrs s))"
  "duplicatesRemoved (rep (standardizeText rt hdrs s)) = duplicatesRemoved (rep s)"
  "valuesImputed (rep (standardizeText rt hdrs s)) = valuesImputed (rep s)"
  "outliersTreated (rep (standardizeText rt hdrs s)) = outliersTreated (rep s)"
  "stepsApplied (rep (standardizeText rt hdrs s))
     = stepsApplied (rep s) @ [''Standardized text format to lowercase'']"
proof -
  have "frame (set (cleanedData s)) (store s)
          (fold (standardizeColumn rt (cleanedData s)) hdrs (store s))"
    using fold_frame [where p = "\<lambda>h. h" and g = "standardizeColumn rt (cleanedData s)"
        and A = "set (cleanedData s)" and xs = hdrs]
    by (simp add: standardizeColumn_frame)
  then show "frame (set (cleanedData s)) (store s) (store (standardizeText rt hdrs s))"
    by (simp add: standardizeText_def)
qed (simp_all add: standardizeText_def)

lemma handleOutliers_fields:
  "cleanedData (handleOutliers rt hdrs s) = cleanedData s"
  "frame (set (cleanedData s)) (store s) (store (handleOutliers rt hdrs s))"
  "duplicatesRemoved (rep (handleOutliers rt hdrs s)) = duplicatesRemoved (rep s)"
  "valuesImputed (rep (handleOutliers rt hdrs s)) = valuesImputed (rep s)"
  "outliersTreated (rep s) \<le> outliersTreated (rep (handleOutliers rt hdrs s))"
  "stepsApplied (rep (handleOutliers rt hdrs s))
     = stepsApplied (rep s)
       @ (if outliersTreated (rep (handleOutliers rt hdrs s)) > 0
          then [''Treated '' @ show_nat (outliersTreated (rep (handleOutliers rt hdrs s)))
                @ '' outliers using IQR capping'']
          else [])"
proof -
  let ?st = "fold (capColumn rt (cleanedData s)) hdrs (store s, rep s)"
  have r: "only_treated (rep s) (snd ?st)"
    using fold_capColumn_report [of "(store s, rep s)" rt "cleanedData s" hdrs] by simp
  have f: "frame (set (cleanedData s)) (store s) (fst ?st)"
    using fold_capColumn_frame [of "cleanedData s" "(store s, rep s)" rt hdrs] by simp
  show "cleanedData (handleOutliers rt hdrs s) = cleanedData s"
    by (simp add: handleOutliers_def Let_def)
  show "frame (set (cleanedData s)) (store s) (store (handleOutliers rt hdrs s))"
    using f by (simp add: handleOutliers_def Let_def)
  show "duplicatesRemoved (rep (handleOutliers rt hdrs s)) = duplicatesRemoved (rep s)"
    using only_treated_fields [OF r] by (simp add: handleOutliers_def Let_def)
  show "valuesImputed (rep (handleOutliers rt hdrs s)) = valuesImputed (rep s)"
    using only_treated_fields [OF r] by (simp add: handleOutliers_def Let_def)
  show "outliersTreated (rep s) \<le> outliersTreated (rep (handleOutliers rt hdrs s))"
    using r by (simp add: handleOutliers_def Let_def only_treated_def)
  show "stepsApplied (rep (handleOutliers rt hdrs s))
     = stepsApplied (rep s)
       @ (if outliersTreated (rep (handleOutliers rt hdrs s)) > 0
          then [''Treated '' @ show_nat (outliersTreated (rep (handleOutliers rt hdrs s)))
                @ '' outliers using IQR capping'']
          else [])"
    using only_treated_fields [OF r] by (simp add: handleOutliers_def Let_def)
qed

lemma handleOutliers_same:
  assumes "outliersTreated (rep (handleOutliers rt hdrs s)) = outliersTreated (rep s)"
  shows "store (handleOutliers rt hdrs s) = store s"
proof -
  let ?st = "fold (capColumn rt (cleanedData s)) hdrs (store s, rep s)"
  from assms have "outliersTreated (snd ?st) = outliersTreated (snd (store s, rep s))"
    by (simp add: handleOutliers_def Let_def split: if_splits)
  then have "?st = (store s, rep s)" by (rule fold_capColumn_same)
  then show ?thesis by (simp add: handleOutliers_def Let_def)
qed

lemma normalizeData_fields:
  "cleanedData (normalizeData rt nn hdrs s) = cleanedData s"
  "frame (set (cleanedData s)) (store s) (store (normalizeData rt nn hdrs s))"
  "rep (normalizeData rt nn hdrs s) = rep s"
proof -
  have "frame (set (cleanedData s)) (store s)
          (fold (normalizeColumn rt nn (cleanedData s)) hdrs (store s))"
    using fold_frame [where p = "\<lambda>h. h" and g = "normalizeColumn rt nn (cleanedData s)"
        and A = "set (cleanedData s)" and xs = hdrs]
    by (simp add: normalizeColumn_frame)
  then show "frame (set (cleanedData s)) (store s) (store (normalizeData rt nn hdrs s))"
    by (simp add: normalizeData_def)
qed (simp_all add: normalizeData_def)

lemma convertTypes_frame: "frame (set cd) h (fst (convertTypes rt hdrs cd h))"
proof -
  have inner: "frame (set cd) (fst s) (fst (fold (convertCell rt column) cd s))" for column s
    by (rule fold_frame) (rule convertCell_frame)
  have "frame (set cd) (fst (h, 0::nat))
      (fst (fold (\<lambda>column s. fold (convertCell rt column) cd s) hdrs (h, 0)))"
    by (rule fold_frame [where p = fst and g = "\<lambda>column s. fold (convertCell rt column) cd s"])
      (rule inner)
  then show ?thesis by (simp add: convertTypes_def)
qed

lemma convertTypes_same:
  assumes "snd (convertTypes rt hdrs cd h) = 0"
  shows "fst (convertTypes rt hdrs cd h) = h"
proof -
  have mono: "snd s \<le> snd (fold (convertCell rt column) cd s)" for column s
    by (rule fold_counter_mono) (rule convertCell_mono)
  have same: "fold (convertCell rt column) cd s = s"
    if "snd (fold (convertCell rt column) cd s) = snd s" for column s
    using convertCell_mono convertCell_same that by (rule fold_counter_same [where m = snd])
  have "fold (\<lambda>column s. fold (convertCell rt column) cd s) hdrs (h, 0) = (h, 0)"
    using mono same
  proof (rule fold_counter_same [where m = snd])
    show "snd (fold (\<lambda>column. fold (convertCell rt column) cd) hdrs (h, 0)) = snd (h, 0::nat)"
      using assms by (simp add: convertTypes_def)
  qed
  then show ?thesis by (simp add: convertTypes_def)
qed

lemma validateData_frame: "frame (set cd) h (fst (validateData rt hdrs cd h))"
proof -
  have inner: "frame (set cd) (fst s) (fst (fold (validateCell rt column) cd s))" for column s
    by (rule fold_frame) (rule validateCell_frame)
  have "frame (set cd) (fst (h, 0::nat))
      (fst (fold (\<lambda>column s. fold (validateCell rt column) cd s) hdrs (h, 0)))"
    by (rule fold_frame [where p = fst and g = "\<lambda>column s. fold (validateCell rt column) cd s"])
      (rule inner)
  then show ?thesis by (simp add: validateData_def)
qed

lemma validateData_same:
  assumes "snd (validateData rt hdrs cd h) = 0"
  shows "fst (validateData rt hdrs cd h) = h"
proof -
  have mono: "snd s \<le> snd (fold (validateCell rt column) cd s)" for column s
    by (rule fold_counter_mono) (rule validateCell_mono)
  have same: "fold (validateCell rt column) cd s = s"
    if "snd (fold (validateCell rt column) cd s) = snd s" for column s
    using validateCell_mono validateCell_same that by (rule fold_counter_same [where m = snd])
  have "fold (\<lambda>column s. fold (validateCell rt column) cd s) hdrs (h, 0) = (h, 0)"
    using mono same
  proof (rule fold_counter_same [where m = snd])
    show "snd (fold (\<lambda>column. fold (validateCell rt column) cd) hdrs (h, 0)) = snd (h, 0::nat)"
      using assms by (simp add: validateData_def)
  qed
  then show ?thesis by (simp add: validateData_def)
qed

lemma convertData_fields:
  "cleanedData (convertData rt hdrs s) = cleanedData s"
  "frame (set (cleanedData s)) (store s) (store (convertData rt hdrs s))"
  "duplicatesRemoved (rep (convertData rt hdrs s)) = duplicatesRemoved (rep s)"
  "valuesImputed (rep (convertData rt hdrs s)) = valuesImputed (rep s)"
  "outliersTreated (rep (convertData rt hdrs s)) = outliersTreated (rep s)"
  "stepsApplied (rep (convertData rt hdrs s))
     = stepsApplied (rep s)
       @ (if snd (convertTypes rt hdrs (cleanedData s) (store s)) > 0
          then [''Converted '' @ show_nat (snd (convertTypes rt hdrs (cleanedData s) (store s)))
                @ '' values to appropriate data types'']
          else [])"
  using convertTypes_frame [of "cleanedData s" "store s" rt hdrs]
  by (simp_all add: convertData_def Let_def)

lemma checkData_fields:
  "cleanedData (checkData rt hdrs s) = cleanedData s"
  "frame (set (cleanedData s)) (store s) (store (checkData rt hdrs s))"
  "duplicatesRemoved (rep (checkData rt hdrs s)) = duplicatesRemoved (rep s)"
  "valuesImputed (rep (checkData rt hdrs s)) = valuesImputed (rep s)"
  "outliersTreated (rep (checkData rt hdrs s)) = outliersTreated (rep s)"
  "stepsApplied (rep (checkData rt hdrs s))
     = stepsApplied (rep s)
       @ (if snd (validateData rt hdrs (cleanedData s) (store s)) > 0
          then [''Fixed '' @ show_nat (snd (validateData rt hdrs (cleanedData s) (store s)))
                @ '' data validation issues'']
          else [])"
  using validateData_frame [of "cleanedData s" "store s" rt hdrs]
  by (simp_all add: checkData_def Let_def)

lemma finish_fields:
  "cleanedData (finish hdrs s) = cleanedData s"
  "store (finish hdrs s) = store s"
  "duplicatesRemoved (rep (finish hdrs s)) = duplicatesRemoved (rep s)"
  "valuesImputed (rep (finish hdrs s)) = valuesImputed (rep s)"
  "outliersTreated (rep (finish hdrs s)) = outliersTreated (rep s)"
  "stepsApplied (rep (finish hdrs s)) = stepsApplied (rep s) @ [completed_message]"
  by (simp_all add: finish_def)


lemmas step_fields = removeDuplicates_fields handleMissing_fields standardizeText_fields
  handleOutliers_fields normalizeData_fields convertData_fields checkData_fields finish_fields

lemma loaded_fields [simp]:
  "store (loaded results) = results"
  "cleanedData (loaded results) = [0..<length results]"
  "stepsApplied (rep (loaded results)) = []"
  "valuesImputed (rep (loaded results)) = 0"
  "outliersTreated (rep (loaded results)) = 0"
  "duplicatesRemoved (rep (loaded results)) = 0"
  by (simp_all add: loaded_def)

lemma cleanedData_deduplicated:
  "cleanedData (deduplicated results)
     = filter (\<lambda>a. JSON_stringify (results ! a) \<notin> JSON_stringify ` set (take a results))
         [0..<length results]"
  by (simp add: deduplicated_def removeDuplicates_fields uniqBy_upt)

lemma cleanedData_validated:
  "cleanedData (validated rt nn results) = cleanedData (deduplicated results)"
  by (simp add: validated_def typesCoerced_def normalized_def outliersCapped_def
      textNormalized_def imputed_def step_fields)

lemma duplicatesRemoved_validated:
  "duplicatesRemoved (rep (validated rt nn results))
     = length results - length (cleanedData (deduplicated results))"
  by (simp add: validated_def typesCoerced_def normalized_def outliersCapped_def
      textNormalized_def imputed_def deduplicated_def step_fields)

lemma data_cleanCSVData: "data (cleanCSVData rt nn results) = cleanedData (deduplicated results)"
  by (simp add: cleanCSVData_def Let_def finish_fields cleanedData_validated)

lemma length_deduplicated:
  "length (cleanedData (deduplicated results)) = card (JSON_stringify ` set results)"
proof -
  have "(\<lambda>a. JSON_stringify (results ! a)) ` set [0..<length results] = JSON_stringify ` set results"
    by (simp add: image_image [symmetric] nth_image [of "length results" results, simplified]
        del: image_image)
  then show ?thesis
    by (simp add: deduplicated_def removeDuplicates_fields length_uniqBy)
qed

lemma dedup_core:
  "data (cleanCSVData rt nn results)
     = filter (\<lambda>a. JSON_stringify (results ! a) \<notin> JSON_stringify ` set (take a results))
         [0..<length results]"
  "duplicatesRemoved (report (cleanCSVData rt nn results))
     = length (filter (\<lambda>a. JSON_stringify (results ! a) \<in> JSON_stringify ` set (take a results))
         [0..<length results])"
proof -
  let ?dup = "\<lambda>a. JSON_stringify (results ! a) \<in> JSON_stringify ` set (take a results)"
  show "data (cleanCSVData rt nn results) = filter (\<lambda>a. \<not> ?dup a) [0..<length results]"
    by (simp add: data_cleanCSVData cleanedData_deduplicated)
  have s: "length (filter ?dup [0..<length results])
      + length (filter (\<lambda>a. \<not> ?dup a) [0..<length results]) = length results"
    using sum_length_filter_compl [of ?dup "[0..<length results]"] by simp
  have "duplicatesRemoved (report (cleanCSVData rt nn results))
      = length results - length (filter (\<lambda>a. \<not> ?dup a) [0..<length results])"
    by (simp add: cleanCSVData_def Let_def finish_fields duplicatesRemoved_validated
        cleanedData_deduplicated)
  with s show "duplicatesRemoved (report (cleanCSVData rt nn results))
      = length (filter ?dup [0..<length results])"
    by simp
qed

lemma frame_validated:
  "frame (set (cleanedData (deduplicated results))) results (store (validated rt nn results))"
proof -
  let ?A = "set (cleanedData (deduplicated results))"
  have cd: "cleanedData (imputed rt results) = cleanedData (deduplicated results)"
    "cleanedData (textNormalized rt results) = cleanedData (deduplicated results)"
    "cleanedData (outliersCapped rt results) = cleanedData (deduplicated results)"
    "cleanedData (normalized rt nn results) = cleanedData (deduplicated results)"
    "cleanedData (typesCoerced rt nn results) = cleanedData (deduplicated results)"
    by (simp_all add: typesCoerced_def normalized_def outliersCapped_def
        textNormalized_def imputed_def step_fields)
  have 1: "store (deduplicated results) = results"
    by (simp add: deduplicated_def removeDuplicates_fields)
  have 2: "frame ?A (store (deduplicated results)) (store (imputed rt results))"
    unfolding imputed_def by (rule handleMissing_fields)
  have 3: "frame ?A (store (imputed rt results)) (store (textNormalized rt results))"
    using standardizeText_fields(2) [of "imputed rt results" rt "headersOf results"]
    by (simp add: textNormalized_def cd)
  have 4: "frame ?A (store (textNormalized rt results)) (store (outliersCapped rt results))"
    using handleOutliers_fields(2) [of "textNormalized rt results" rt "headersOf results"]
    by (simp add: outliersCapped_def cd)
  have 5: "frame ?A (store (outliersCapped rt results)) (store (normalized rt nn results))"
    using normalizeData_fields(2) [of "outliersCapped rt results" rt nn "headersOf results"]
    by (simp add: normalized_def cd)
  have 6: "frame ?A (store (normalized rt nn results)) (store (typesCoerced rt nn results))"
    using convertData_fields(2) [of "normalized rt nn results" rt "headersOf results"]
    by (simp add: typesCoerced_def cd)
  have 7: "frame ?A (store (typesCoerced rt nn results)) (store (validated rt nn results))"
    using checkData_fields(2) [of "typesCoerced rt nn results" rt "headersOf results"]
    by (simp add: validated_def cd)
  from 2 3 4 5 6 7 have "frame ?A (store (deduplicated results)) (store (validated rt nn results))"
    by (blast intro: frame_trans)
  then show ?thesis by (simp add: 1)
qed

subsection \<open>Objects and counting\<close>

lemma map_of_obj_set: "map_of (obj_set k v ob) k' = (if k' = k then Some v else map_of ob k')"
  by (induction ob) auto

lemma keys_obj_set:
  "map fst (obj_set k v ob) = (if k \<in> fst ` set ob then map fst ob else map fst ob @ [k])"
  by (induction ob) auto

lemma uniqBy_seen_snoc:
  "uniqBy_seen f seen (xs @ [x])
     = uniqBy_seen f seen xs @ (if f x \<in> set seen \<union> f ` set xs then [] else [x])"
  by (induction xs arbitrary: seen) auto

lemma uniqBy_snoc:
  "uniqBy (xs @ [x]) f = uniqBy xs f @ (if f x \<in> f ` set xs then [] else [x])"
  by (simp add: uniqBy_def uniqBy_seen_snoc)

lemma countBy_snoc:
  "countBy (vs @ [v]) =
     (case map_of (countBy vs) v of
        Some k \<Rightarrow> obj_set v (k + 1) (countBy vs)
      | None \<Rightarrow> obj_set v 1 (countBy vs))"
  unfolding countBy_def by simp

lemma countBy_nil [simp]: "countBy [] = []"
  by (simp add: countBy_def)

lemma countBy_facts:
  "map_of (countBy vs) w = (if w \<in> set vs then Some (count_list vs w) else None)
   \<and> map fst (countBy vs) = uniqBy vs (\<lambda>v. v)"
proof (induction vs arbitrary: w rule: rev_induct)
  case Nil
  show ?case by (simp add: uniqBy_def)
next
  case (snoc v vs)
  have m: "map_of (countBy vs) u = (if u \<in> set vs then Some (count_list vs u) else None)" for u
    using snoc.IH by simp
  have k: "map fst (countBy vs) = uniqBy vs (\<lambda>v. v)"
    using snoc.IH by simp
  have dom: "fst ` set (countBy vs) = set vs"
  proof -
    have "fst ` set (countBy vs) = set (map fst (countBy vs))" by simp
    also have "\<dots> = set (uniqBy vs (\<lambda>v. v))" by (simp only: k)
    also have "\<dots> = set vs"
      using uniqBy_seen_keys [of "\<lambda>v. v" "[]" vs] by (simp add: uniqBy_def)
    finally show ?thesis .
  qed
  show ?case
  proof (cases "v \<in> set vs")
    case True
    then show ?thesis
      by (auto simp: countBy_snoc m map_of_obj_set keys_obj_set dom k uniqBy_snoc)
  next
    case False
    then show ?thesis
      by (auto simp: countBy_snoc m map_of_obj_set keys_obj_set dom k uniqBy_snoc)
  qed
qed

lemma distinct_keys_countBy: "distinct (map fst (countBy vs))"
  using uniqBy_seen_keys [of "\<lambda>v. v" "[]" vs] countBy_facts [of vs]
  by (simp add: uniqBy_def)

lemma set_countBy: "set (countBy vs) = (\<lambda>v. (v, count_list vs v)) ` set vs"
proof -
  have "(v, k) \<in> set (countBy vs) \<longleftrightarrow> map_of (countBy vs) v = Some k" for v k
    using distinct_keys_countBy [of vs] by simp
  then show ?thesis
    using countBy_facts [of vs] by (auto split: if_splits)
qed

lemma set_own_props: "set (own_props ob) = set ob"
  by (auto simp: own_props_def)

lemma set_toPairs_countBy:
  "set (toPairs (countBy vs)) = (\<lambda>v. (v, count_list vs v)) ` set vs"
  by (simp add: toPairs_def set_own_props set_countBy)

lemma keys_toPairs_countBy:
  "map fst (toPairs (countBy vs)) =
     sort_key int_of_digits (filter is_array_index (uniqBy vs (\<lambda>v. v)))
     @ filter (\<lambda>v. \<not> is_array_index v) (uniqBy vs (\<lambda>v. v))"
proof -
  have a: "map fst (filter (\<lambda>p. P (fst p)) ob) = filter P (map fst ob)" for P and ob :: "nat obj"
    by (induction ob) auto
  have i: "map fst (insort_key (\<lambda>p. f (fst p)) x ob) = insort_key f (fst x) (map fst ob)"
    for f :: "string \<Rightarrow> int" and ob :: "nat obj" and x
    by (induction ob) auto
  have b: "map fst (sort_key (\<lambda>p. f (fst p)) ob) = sort_key f (map fst ob)"
    for f :: "string \<Rightarrow> int" and ob :: "nat obj"
    by (induction ob) (simp_all add: i)
  have k: "map fst (countBy vs) = uniqBy vs (\<lambda>v. v)"
    using countBy_facts [of vs] by simp
  show ?thesis
    by (simp add: toPairs_def own_props_def a [of is_array_index]
        a [of "\<lambda>v. \<not> is_array_index v"] b [of int_of_digits] k)
qed

subsection \<open>The first maximum\<close>

lemma maxBy1_nil [simp]: "maxBy1 [] = None"
  by (simp add: maxBy1_def)

lemma maxBy1_snoc:
  "maxBy1 (ps @ [q]) =
     (case maxBy1 ps of None \<Rightarrow> Some q | Some b \<Rightarrow> if snd q > snd b then Some q else Some b)"
  by (simp add: maxBy1_def)

lemma maxBy1_None: "maxBy1 ps = None \<longleftrightarrow> ps = []"
  by (induction ps rule: rev_induct) (auto simp: maxBy1_snoc split: option.split)

lemma maxBy1_first:
  "maxBy1 ps = Some p \<Longrightarrow>
     (\<exists>i<length ps. ps ! i = p \<and> (\<forall>j<i. snd (ps ! j) < snd p)) \<and> (\<forall>q\<in>set ps. snd q \<le> snd p)"
proof (induction ps arbitrary: p rule: rev_induct)
  case Nil
  then show ?case by simp
next
  case (snoc q ps)
  show ?case
  proof (cases "maxBy1 ps")
    case None
    then have e: "ps = []" by (simp add: maxBy1_None)
    from snoc.prems None have "p = q" by (simp add: maxBy1_snoc)
    with e show ?thesis by simp
  next
    case (Some b)
    from snoc.IH [OF Some] obtain i where i: "i < length ps" "ps ! i = b"
      "\<forall>j<i. snd (ps ! j) < snd b" and le: "\<forall>r\<in>set ps. snd r \<le> snd b"
      by blast
    show ?thesis
    proof (cases "snd q > snd b")
      case True
      with snoc.prems Some have p: "p = q" by (simp add: maxBy1_snoc)
      have "\<forall>j<length ps. snd ((ps @ [q]) ! j) < snd q"
        using le True by (auto simp: nth_append intro: le_less_trans)
      moreover have "(ps @ [q]) ! length ps = q" by simp
      ultimately have "\<exists>i<length (ps @ [q]). (ps @ [q]) ! i = p
          \<and> (\<forall>j<i. snd ((ps @ [q]) ! j) < snd p)"
        unfolding p by (intro exI [of _ "length ps"]) simp
      moreover have "\<forall>r\<in>set (ps @ [q]). snd r \<le> snd p"
        using le True p by (auto intro: order_trans less_imp_le)
      ultimately show ?thesis by blast
    next
      case False
      with snoc.prems Some have p: "p = b" by (simp add: maxBy1_snoc)
      have "\<exists>i<length (ps @ [q]). (ps @ [q]) ! i = p
          \<and> (\<forall>j<i. snd ((ps @ [q]) ! j) < snd p)"
        using i unfolding p by (intro exI [of _ i]) (auto simp: nth_append)
      moreover have "\<forall>r\<in>set (ps @ [q]). snd r \<le> snd p"
        using le False p by auto
      ultimately show ?thesis by blast
    qed
  qed
qed

lemma mode_facts:
  assumes "maxBy1 (toPairs (countBy vs)) = Some (m, k)"
  shows "m \<in> set vs" and "k = count_list vs m" and "count_list vs v \<le> k"
proof -
  from maxBy1_first [OF assms]
  have mem: "(m, k) \<in> set (toPairs (countBy vs))"
    and le: "\<forall>q\<in>set (toPairs (countBy vs)). snd q \<le> k"
    by (auto simp: in_set_conv_nth)
  from mem show "m \<in> set vs" and "k = count_list vs m"
    by (auto simp: set_toPairs_countBy)
  show "count_list vs v \<le> k"
  proof (cases "v \<in> set vs")
    case True
    then have "(v, count_list vs v) \<in> set (toPairs (countBy vs))"
      by (simp add: set_toPairs_countBy)
    with le show ?thesis by fastforce
  next
    case False
    then show ?thesis by (simp add: count_list_0_iff)
  qed
qed

subsection \<open>What a fill writes\<close>

lemma cell_set_cell:
  "a < length h \<Longrightarrow>
     cell (set_cell h a column v) b c = (if b = a \<and> c = column then Some v else cell h b c)"
  by (cases "b = a") (simp_all add: cell_def set_cell_def map_of_obj_set)

lemma length_set_cell [simp]: "length (set_cell h a column v) = length h"
  by (simp add: set_cell_def)

lemma fillMissing_cell:
  assumes "\<forall>i\<in>set mi. cd ! i < length (fst st)"
  shows "cell (fst (fillMissing cd column v mi st)) b c
          = (if c = column \<and> b \<in> (\<lambda>i. cd ! i) ` set mi then Some v else cell (fst st) b c)"
  using assms
proof (induction mi arbitrary: st)
  case Nil
  show ?case by (simp add: fillMissing_def)
next
  case (Cons i mi)
  let ?st = "(set_cell (fst st) (cd ! i) column v,
              (snd st)\<lparr>valuesImputed := valuesImputed (snd st) + 1\<rparr>)"
  have step: "fillMissing cd column v (i # mi) st = fillMissing cd column v mi ?st"
    by (simp add: fillMissing_def)
  have "\<forall>j\<in>set mi. cd ! j < length (fst ?st)"
    using Cons.prems by simp
  from Cons.IH [OF this] Cons.prems show ?case
    by (auto simp: step cell_set_cell)
qed

lemma missing_addresses:
  "a \<in> (\<lambda>i. cd ! i) ` set (missingIndicesOf h cd column)
     \<longleftrightarrow> a \<in> set cd \<and> isMissing (cell h a column)"
  by (auto simp: missingIndicesOf_def in_set_conv_nth)

lemma fill_missing_cells:
  assumes "set cd \<subseteq> {..<length h}"
  shows "cell (fst (fillMissing cd column v (missingIndicesOf h cd column) (h, r))) a column
          = (if a \<in> set cd \<and> isMissing (cell h a column) then Some v else cell h a column)"
proof -
  have "cd ! i < length h" if "i < length cd" for i
    using assms nth_mem [OF that] by auto
  then have "\<forall>i\<in>set (missingIndicesOf h cd column). cd ! i < length (fst (h, r))"
    by (simp add: missingIndicesOf_def)
  from fillMissing_cell [OF this] show ?thesis
    by (simp add: missing_addresses)
qed

lemma imputeColumn_none:
  "missingIndicesOf h cd column = [] \<Longrightarrow> imputeColumn rt cd column (h, r) = (h, r)"
  by (simp add: imputeColumn_def)

lemma imputeColumn_numeric:
  assumes "missingIndicesOf h cd column \<noteq> []"
    and "detectDataType rt (filter nonblank (map (\<lambda>a. cell h a column) cd)) = ''numeric''"
  shows "imputeColumn rt cd column (h, r) =
     fillMissing cd column
       (Number_toString rt (medianOf (sort_num (filter (\<lambda>val. \<not> isNaN val)
          (map (\<lambda>a. parseFloat_of rt (cell h a column)) cd)))))
       (missingIndicesOf h cd column) (h, r)"
  using assms by (simp add: imputeColumn_def Let_def)

lemma imputeColumn_categorical:
  assumes "missingIndicesOf h cd column \<noteq> []"
    and "detectDataType rt (filter nonblank (map (\<lambda>a. cell h a column) cd)) = ''categorical''"
    and "maxBy1 (toPairs (countBy (strings_of (filter nonblank
            (map (\<lambda>a. cell h a column) cd))))) = Some (m, k)"
  shows "imputeColumn rt cd column (h, r)
           = fillMissing cd column m (missingIndicesOf h cd column) (h, r)"
  using assms by (simp add: imputeColumn_def Let_def)

lemma imputeColumn_other:
  assumes "detectDataType rt (filter nonblank (map (\<lambda>a. cell h a column) cd)) \<noteq> ''numeric''"
    and "detectDataType rt (filter nonblank (map (\<lambda>a. cell h a column) cd)) \<noteq> ''categorical''"
  shows "imputeColumn rt cd column (h, r) = (h, r)"
  using assms by (simp add: imputeColumn_def Let_def)

lemma strings_of_nonblank_nil: "strings_of (filter nonblank vs) = [] \<longleftrightarrow> filter nonblank vs = []"
proof (induction vs)
  case Nil
  show ?case by simp
next
  case (Cons v vs)
  then show ?case by (cases v) auto
qed

lemma detectDataType_nil: "detectDataType rt [] = ''unknown''"
  by (simp add: detectDataType_def)

subsection \<open>Cleaning a table without duplicates or missing cells\<close>

lemma fold_imputeColumn_none:
  assumes "\<forall>column\<in>set hdrs. \<forall>a\<in>set cd. \<not> isMissing (cell h a column)"
  shows "fold (imputeColumn rt cd) hdrs (h, r) = (h, r)"
  using assms
proof (induction hdrs)
  case Nil
  show ?case by simp
next
  case (Cons column hdrs)
  have "missingIndicesOf h cd column = []"
    using Cons.prems by (auto simp: missingIndicesOf_def filter_empty_conv)
  then have "imputeColumn rt cd column (h, r) = (h, r)"
    by (rule imputeColumn_none)
  with Cons show ?case by simp
qed

lemma no_duplicates:
  assumes "distinct (map JSON_stringify t)"
  shows "cleanedData (deduplicated t) = [0..<length t]"
proof -
  have "JSON_stringify (t ! a) \<notin> JSON_stringify ` set (take a t)" if "a < length t" for a
  proof -
    have "t = take a t @ t ! a # drop (Suc a) t"
      using that by (rule id_take_nth_drop)
    then have "distinct (map JSON_stringify (take a t @ t ! a # drop (Suc a) t))"
      using assms by simp
    then show ?thesis by auto
  qed
  then show ?thesis
    by (simp add: cleanedData_deduplicated filter_id_conv)
qed

lemma nothing_removed_or_imputed:
  "(distinct (map JSON_stringify t)
      \<longrightarrow> duplicatesRemoved (report (cleanCSVData rt nn t)) = 0)
   \<and> ((\<forall>row\<in>set t. \<forall>column\<in>set (headersOf t). \<not> isMissing (map_of row column))
      \<longrightarrow> valuesImputed (report (cleanCSVData rt nn t)) = 0)"
proof (intro conjI impI)
  assume "distinct (map JSON_stringify t)"
  then have "cleanedData (deduplicated t) = [0..<length t]" by (rule no_duplicates)
  then show "duplicatesRemoved (report (cleanCSVData rt nn t)) = 0"
    by (simp add: cleanCSVData_def Let_def finish_fields duplicatesRemoved_validated)
next
  assume nm: "\<forall>row\<in>set t. \<forall>column\<in>set (headersOf t). \<not> isMissing (map_of row column)"
  let ?s = "deduplicated t"
  have st: "store ?s = t" and r0: "valuesImputed (rep ?s) = 0"
    by (simp_all add: deduplicated_def removeDuplicates_fields)
  have "set (cleanedData ?s) \<subseteq> {..<length t}"
    by (auto simp: cleanedData_deduplicated)
  then have "\<forall>column\<in>set (headersOf t). \<forall>a\<in>set (cleanedData ?s). \<not> isMissing (cell t a column)"
    using nm by (auto simp: cell_def)
  then have "fold (imputeColumn rt (cleanedData ?s)) (headersOf t) (t, rep ?s) = (t, rep ?s)"
    by (rule fold_imputeColumn_none)
  then have "valuesImputed (rep (imputed rt t)) = 0"
    by (simp add: imputed_def handleMissing_def Let_def st r0)
  moreover have "valuesImputed (report (cleanCSVData rt nn t)) = valuesImputed (rep (imputed rt t))"
    by (simp add: cleanCSVData_def Let_def validated_def typesCoerced_def normalized_def
        outliersCapped_def textNormalized_def step_fields)
  ultimately show "valuesImputed (report (cleanCSVData rt nn t)) = 0" by simp
qed

lemmas num_defs = jsub_def jmul_def jdiv_def jeq_def jgt_def isNaN_def signed_fin_def
  signed_zero_def signed_inf_def jsum_def truthy_num_def jmin2_def jmax2_def Math_min_def
  Math_max_def at_num_def sort_num_def

lemma toFixed_NaN: "Number_toFixed decimal_runtime NaN k = ''NaN''"
  by (simp add: decimal_runtime_def)

lemma parseFloat_NaN: "parseFloat decimal_runtime ''NaN'' = NaN"
  by code_simp

subsection \<open>Two values\<close>

lemma std_1_3: "calculateStandardDeviation [Fin 1, Fin 3] = Fin 1"
  by (simp add: calculateStandardDeviation_def num_defs Let_def eval_nat_numeral)

lemma mean_1_3: "jdiv (jsum [Fin 1, Fin 3]) (Fin 2) = Fin 2"
  by (simp add: num_defs)

lemma skew_1_3: "calculateSkewness [Fin 1, Fin 3] (Fin 2) (Fin 1) = NaN"
  by (simp add: calculateSkewness_def num_defs Let_def eval_nat_numeral)

lemma kurt_1_3: "calculateKurtosis [Fin 1, Fin 3] (Fin 2) (Fin 1) = NaN"
  by (simp add: calculateKurtosis_def num_defs Let_def eval_nat_numeral)

lemma summary_1_3:
  "skewness (summaryOf decimal_runtime [Fin 1, Fin 3]) = ''NaN''"
  "kurtosis (summaryOf decimal_runtime [Fin 1, Fin 3]) = ''NaN''"
  by (simp_all add: summaryOf_def Let_def mean_1_3 std_1_3 skew_1_3 kurt_1_3 toFixed_NaN)

lemma parts_1_3:
  "Object_keys [(''a'', ''1'')] = [''a'']"
  "detectDataType decimal_runtime (map Some (columnValues [[(''a'', ''1'')], [(''a'', ''3'')]] ''a''))
     = ''numeric''"
  "numericValuesOf decimal_runtime [[(''a'', ''1'')], [(''a'', ''3'')]] ''a'' = [Fin 1, Fin 3]"
  by code_simp+

lemma analysis_1_3:
  "map_of (summary (analyzeCSVQuality decimal_runtime [[(''a'', ''1'')], [(''a'', ''3'')]])) ''a''
     = Some (summaryOf decimal_runtime [Fin 1, Fin 3])"
  by (simp add: analyzeCSVQuality_def Let_def parts_1_3)


subsection \<open>An infinite value\<close>

lemma parse_inf:
  "parseFloat decimal_runtime ''Infinity'' = PInf" "parseFloat decimal_runtime ''1'' = Fin 1"
  "parseFloat decimal_runtime ''2'' = Fin 2"
  by code_simp+

lemma corr_inf:
  "calculateCorrelation decimal_runtime
     [[(''a'', ''Infinity''), (''b'', ''1'')], [(''a'', ''1''), (''b'', ''2'')]] ''a'' ''b'' = NaN"
  by (simp add: calculateCorrelation_def parse_inf num_defs Let_def)

lemma parts_inf:
  "Object_keys [(''a'', ''Infinity''), (''b'', ''1'')] = [''a'', ''b'']"
  "detectDataType decimal_runtime (map Some (columnValues
     [[(''a'', ''Infinity''), (''b'', ''1'')], [(''a'', ''1''), (''b'', ''2'')]] ''a'')) = ''numeric''"
  "detectDataType decimal_runtime (map Some (columnValues
     [[(''a'', ''Infinity''), (''b'', ''1'')], [(''a'', ''1''), (''b'', ''2'')]] ''b'')) = ''numeric''"
  "columnPairs [''a'', ''b''] = [(''a'', ''b'')]"
  by code_simp+

lemma analysis_inf:
  "correlations (analyzeCSVQuality decimal_runtime
     [[(''a'', ''Infinity''), (''b'', ''1'')], [(''a'', ''1''), (''b'', ''2'')]])
   = [(''a'', [(''b'', ''NaN'')])]"
  by (simp add: analyzeCSVQuality_def Let_def parts_inf correlationsOf_def corr_inf toFixed_NaN)

subsection \<open>No column\<close>

lemma parts_none:
  "Object_keys ([] :: row) = []"
  "uniqBy [[] :: row] JSON_stringify = [[]]"
  "Number_toFixed decimal_runtime (Fin 100) 2 = ''100.00''"
  "parseFloat decimal_runtime ''100.00'' = Fin 100"
  by code_simp+

lemma analysis_none:
  "metrics (analyzeCSVQuality decimal_runtime [[]]) =
     \<lparr>completeness = Str ''NaN'', consistency = Str ''NaN'', accuracy = Num (Fin 0),
      validity = Str ''100.00'', uniqueness = Str ''100.00'', overallScore = Str ''NaN''\<rparr>"
  by (simp add: analyzeCSVQuality_def Let_def parts_none toFixed_NaN parseFloat_NaN num_defs
      validityScoreOf_def)

subsection \<open>A column named email\<close>

lemma parts_email:
  "Object_keys [(''email'', ''BAD EMAIL'')] = [''email'']"
  "columnValues [[(''email'', ''BAD EMAIL'')]] ''email'' = [''BAD EMAIL'']"
  "detectDataType decimal_runtime [Some ''BAD EMAIL''] = ''categorical''"
  "validateDataPattern decimal_runtime [''BAD EMAIL''] ''categorical'' = 0"
  "validateDataPattern decimal_runtime [''BAD EMAIL''] ''email'' = 1"
  "uniqBy [[(''email'', ''BAD EMAIL'')]] JSON_stringify = [[(''email'', ''BAD EMAIL'')]]"
  by code_simp+

lemma analysis_email:
  "validity (metrics (analyzeCSVQuality decimal_runtime [[(''email'', ''BAD EMAIL'')]])) = Str ''100.00''"
  "dataTypes (analyzeCSVQuality decimal_runtime [[(''email'', ''BAD EMAIL'')]])
     = [(''email'', ''categorical'')]"
  by (simp_all add: analyzeCSVQuality_def Let_def parts_email parts_none validityScoreOf_def num_defs)

section \<open>The loops of a step and its assignments\<close>

subsection \<open>Carrying out assignments\<close>

lemma apply_assignments_Nil [simp]: "apply_assignments [] h = h"
  by (simp add: apply_assignments_def)






subsection \<open>The assignments to one column\<close>

lemma cellAssignments_Nil [simp]: "cellAssignments f h [] c = []"
  by (simp add: cellAssignments_def)





subsection \<open>A loop over the rows, a loop over the columns\<close>


lemma stepAssignments_Nil [simp]: "stepAssignments A [] = []"
  by (simp add: stepAssignments_def)




lemma stepAssignments_cells:
  assumes "\<And>c. c \<in> set hdrs \<Longrightarrow> A c = cellAssignments (f c) h cd c \<or> A c = []"
    and "w \<in> set (stepAssignments A hdrs)"
  shows "fst w \<in> set cd \<and> fst (snd w) \<in> set hdrs"
  using assms by (fastforce simp: stepAssignments_def cellAssignments_def)

subsection \<open>Step 6 and step 7: one cell\<close>





subsection \<open>Step 4: one cell, one column, the step\<close>




subsection \<open>Step 2: one column, the step\<close>






section \<open>The run, step by step\<close>









section \<open>What a column is filled with\<close>

text \<open>
  One column of step 2, on any store: the type of the column is the one
  \<open>detectDataType\<close> finds for its non-blank values; the missing cells of a
  categorical column get the first of the most frequent values in the order of the keys
  of the count object (array indices ascending, then the others as they first occur),
  those of a numeric column the printed median; other cells and other columns stay.
\<close>

lemma imputeColumn_fills:
  assumes "set cd \<subseteq> {..<length h}"
  shows "let cells = map (\<lambda>a. cell h a column) cd;
             ty = detectDataType rt (filter nonblank cells);
             vals = strings_of (filter nonblank cells);
             pairs = toPairs (countBy vals);
             nums = sort_num (filter (\<lambda>val. \<not> isNaN val) (map (parseFloat_of rt) cells));
             h' = fst (imputeColumn rt cd column (h, r));
             filled = (\<lambda>v. \<forall>a\<in>set cd. cell h' a column
                               = (if isMissing (cell h a column) then Some v else cell h a column))
         in (ty = ''categorical'' \<longrightarrow>
               (\<exists>m k i. maxBy1 pairs = Some (m, k) \<and> filled m \<and> m \<in> set vals
                  \<and> k = count_list vals m \<and> (\<forall>v. count_list vals v \<le> k)
                  \<and> i < length pairs \<and> pairs ! i = (m, k) \<and> (\<forall>j<i. snd (pairs ! j) < k)))
            \<and> map fst pairs
                = sort_key int_of_digits (filter is_array_index (uniqBy vals (\<lambda>v. v)))
                  @ filter (\<lambda>v. \<not> is_array_index v) (uniqBy vals (\<lambda>v. v))
            \<and> (ty = ''numeric'' \<longrightarrow> filled (Number_toString rt (medianOf nums)))
            \<and> (ty \<noteq> ''numeric'' \<and> ty \<noteq> ''categorical'' \<longrightarrow> h' = h)"
proof -
  define cells where "cells = map (\<lambda>a. cell h a column) cd"
  define ty where "ty = detectDataType rt (filter nonblank cells)"
  define vals where "vals = strings_of (filter nonblank cells)"
  define pairs where "pairs = toPairs (countBy vals)"
  define nums where "nums = sort_num (filter (\<lambda>val. \<not> isNaN val) (map (parseFloat_of rt) cells))"
  define h' where "h' = fst (imputeColumn rt cd column (h, r))"
  define filled where "filled = (\<lambda>v. \<forall>a\<in>set cd. cell h' a column
                               = (if isMissing (cell h a column) then Some v else cell h a column))"
  define mi where "mi = missingIndicesOf h cd column"
  have nums_eq: "nums = sort_num (filter (\<lambda>val. \<not> isNaN val)
      (map (\<lambda>a. parseFloat_of rt (cell h a column)) cd))"
    by (simp add: nums_def cells_def comp_def)
  have unchanged: "filled v" if "h' = h" "mi = []" for v
  proof -
    have "\<not> isMissing (cell h a column)" if "a \<in> set cd" for a
      using missing_addresses [of a cd h column] that \<open>mi = []\<close> by (simp add: mi_def)
    with \<open>h' = h\<close> show ?thesis by (simp add: filled_def)
  qed
  have after_fill: "filled v"
    if "imputeColumn rt cd column (h, r) = fillMissing cd column v mi (h, r)" for v
    using fill_missing_cells [OF assms, of column v r] that
    by (simp add: filled_def h'_def mi_def)
  have cat: "\<exists>m k i. maxBy1 pairs = Some (m, k) \<and> filled m \<and> m \<in> set vals
                  \<and> k = count_list vals m \<and> (\<forall>v. count_list vals v \<le> k)
                  \<and> i < length pairs \<and> pairs ! i = (m, k) \<and> (\<forall>j<i. snd (pairs ! j) < k)"
    if c: "ty = ''categorical''"
  proof -
    have "filter nonblank cells \<noteq> []"
      using c detectDataType_nil [of rt] by (auto simp: ty_def)
    then have "vals \<noteq> []" by (simp add: vals_def strings_of_nonblank_nil)
    then have "set (toPairs (countBy vals)) \<noteq> {}"
      by (simp add: set_toPairs_countBy)
    then have "pairs \<noteq> []" by (auto simp: pairs_def)
    then obtain m k where mk: "maxBy1 pairs = Some (m, k)"
      using maxBy1_None [of pairs] by (cases "maxBy1 pairs") auto
    from maxBy1_first [OF mk] obtain i where i: "i < length pairs" "pairs ! i = (m, k)"
      "\<forall>j<i. snd (pairs ! j) < k"
      by auto
    have facts: "m \<in> set vals" "k = count_list vals m" "\<forall>v. count_list vals v \<le> k"
      using mode_facts [of vals m k] mk by (simp_all add: pairs_def)
    have "filled m"
    proof (cases "mi = []")
      case True
      then have "imputeColumn rt cd column (h, r) = (h, r)"
        by (simp add: mi_def imputeColumn_none)
      then have "h' = h" by (simp add: h'_def)
      then show ?thesis using True by (rule unchanged)
    next
      case False
      have "imputeColumn rt cd column (h, r) = fillMissing cd column m mi (h, r)"
        unfolding mi_def
        using False c mk
        by (intro imputeColumn_categorical [where k = k])
          (simp_all add: mi_def ty_def cells_def pairs_def vals_def)
      then show ?thesis by (rule after_fill)
    qed
    with mk i facts show ?thesis by blast
  qed
  have num: "filled (Number_toString rt (medianOf nums))" if c: "ty = ''numeric''"
  proof (cases "mi = []")
    case True
    then have "imputeColumn rt cd column (h, r) = (h, r)"
      by (simp add: mi_def imputeColumn_none)
    then have "h' = h" by (simp add: h'_def)
    then show ?thesis using True by (rule unchanged)
  next
    case False
    have "imputeColumn rt cd column (h, r)
        = fillMissing cd column (Number_toString rt (medianOf nums)) mi (h, r)"
      unfolding mi_def nums_eq
      using False c
      by (intro imputeColumn_numeric) (simp_all add: mi_def ty_def cells_def)
    then show ?thesis by (rule after_fill)
  qed
  have other: "h' = h" if "ty \<noteq> ''numeric''" "ty \<noteq> ''categorical''"
    using that imputeColumn_other [of rt h column cd r]
    by (simp add: h'_def ty_def cells_def)
  have order: "map fst pairs
      = sort_key int_of_digits (filter is_array_index (uniqBy vals (\<lambda>v. v)))
        @ filter (\<lambda>v. \<not> is_array_index v) (uniqBy vals (\<lambda>v. v))"
    by (simp add: pairs_def keys_toPairs_countBy)
  from cat num other order show ?thesis
    unfolding Let_def cells_def [symmetric] ty_def [symmetric] vals_def [symmetric]
      pairs_def [symmetric] nums_def [symmetric] h'_def [symmetric] filled_def
    by blast
qed

section \<open>Evaluation of the run on concrete tables\<close>

lemma zero_rows:
  "analyzeCSVQuality rt [] = initialAnalysis"
  "data (cleanCSVData rt nn []) = []"
  "report (cleanCSVData rt nn []) =
     \<lparr>stepsApplied = [''Standardized text format to lowercase'', completed_message],
      rowsRemoved = 0, valuesImputed = 0, outliersTreated = 0, duplicatesRemoved = 0,
      processingComplete = True, finalQualityScore = Some (Fin 0)\<rparr>"
  by (simp_all add: analyzeCSVQuality_def cleanCSVData_def Let_def finish_def validated_def
      checkData_def validateData_def typesCoerced_def convertData_def convertTypes_def
      normalized_def normalizeData_def outliersCapped_def handleOutliers_def textNormalized_def
      standardizeText_def imputed_def handleMissing_def deduplicated_def removeDuplicates_def
      loaded_def headersOf_def uniqBy_def push_def calculateDataQualityScore_def)

text \<open>
  Ties of the mode. The count object lists the keys that are array indices before the
  others, so that of the values x and 7, once each and x first, 7 is the mode: whatever
  the runtime makes of the string 7, provided it reads x neither as a number nor as a
  date.
\<close>

lemma tie_break_any_runtime:
  assumes "isNaN (parseFloat rt ''x'')" and "isNaN (Date_parse rt ''x'')"
  shows "fst (imputeColumn rt [0, 1, 2] ''n''
           ([[(''n'', ''x'')], [(''n'', ''7'')], [(''n'', '''')]], r))
         = [[(''n'', ''x'')], [(''n'', ''7'')], [(''n'', ''7'')]]"
proof -
  let ?h = "[[(''n'', ''x'')], [(''n'', ''7'')], [(''n'', '''')]]"
  have cells: "filter nonblank (map (\<lambda>a. cell ?h a ''n'') [0, 1, 2]) = [Some ''x'', Some ''7'']"
    by code_simp
  have mi: "missingIndicesOf ?h [0, 1, 2] ''n'' = [2]"
    by code_simp
  have ty: "detectDataType rt [Some ''x'', Some ''7''] = ''categorical''"
    using assms by (simp add: detectDataType_def Let_def)
  have mode: "maxBy1 (toPairs (countBy (strings_of [Some ''x'', Some ''7'']))) = Some (''7'', 1)"
    by code_simp
  have "imputeColumn rt [0, 1, 2] ''n'' (?h, r) = fillMissing [0, 1, 2] ''n'' ''7'' [2] (?h, r)"
    using imputeColumn_categorical [of ?h "[0, 1, 2]" "''n''" rt "''7''" 1 r]
    by (simp only: cells mi ty mode) simp
  then show ?thesis
    by (simp add: fillMissing_def set_cell_def)
qed

section \<open>The properties\<close>

subsection \<open>C1: the rows of the input\<close>

text \<open>
  Claim C1, as amended. \<open>cleanCSVData\<close> copies the array of rows, not the rows: the
  array it returns refers to rows of the input (\<open>data\<close> holds addresses of \<open>results\<close>),
  the input array keeps its length, and a row of the input that is not among the rows
  returned (a row dropped as a duplicate) holds the same cells after the call as before.
  The rows returned are the input's own rows, written in place.
\<close>

theorem clean_shares_rows:
  "length (rows (cleanCSVData rt nn results)) = length results
   \<and> set (data (cleanCSVData rt nn results)) \<subseteq> {..<length results}
   \<and> (\<forall>a<length results. a \<notin> set (data (cleanCSVData rt nn results))
        \<longrightarrow> rows (cleanCSVData rt nn results) ! a = results ! a)"
proof -
  have r: "rows (cleanCSVData rt nn results) = store (validated rt nn results)"
    by (simp add: cleanCSVData_def Let_def finish_fields)
  have "set (data (cleanCSVData rt nn results)) \<subseteq> {..<length results}"
    by (auto simp: data_cleanCSVData cleanedData_deduplicated)
  then show ?thesis
    using frame_validated [of results rt nn]
    by (simp add: r data_cleanCSVData frame_def)
qed

text \<open>
  The theorem at a table with a duplicate: the second row is dropped and keeps its
  cell, while the first, which is returned, has been trimmed and lowercased in place.
\<close>

theorem clean_shares_rows_witness:
  "length (rows (cleanCSVData decimal_runtime False [[(''n'', '' Bob '')], [(''n'', '' Bob '')]])) = 2
   \<and> data (cleanCSVData decimal_runtime False [[(''n'', '' Bob '')], [(''n'', '' Bob '')]]) = [0]
   \<and> rows (cleanCSVData decimal_runtime False [[(''n'', '' Bob '')], [(''n'', '' Bob '')]]) ! 1
       = [(''n'', '' Bob '')]
   \<and> rows (cleanCSVData decimal_runtime False [[(''n'', '' Bob '')], [(''n'', '' Bob '')]]) ! 0
       = [(''n'', ''bob'')]"
proof -
  let ?t = "[[(''n'', '' Bob '')], [(''n'', '' Bob '')]]"
  let ?c = "cleanCSVData decimal_runtime False ?t"
  have d: "data ?c = [0]" by code_simp
  have r0: "rows ?c ! 0 = [(''n'', ''bob'')]" by code_simp
  from clean_shares_rows [of decimal_runtime False ?t]
  have len: "length (rows ?c) = 2"
    and fr: "\<forall>a<length ?t. a \<notin> set (data ?c) \<longrightarrow> rows ?c ! a = ?t ! a"
    by simp_all
  have "(1::nat) < length ?t" and "1 \<notin> set (data ?c)" by (simp_all add: d)
  with fr have "rows ?c ! 1 = ?t ! 1" by blast
  then have r1: "rows ?c ! 1 = [(''n'', '' Bob '')]" by simp
  from len d r1 r0 show ?thesis by simp
qed

text \<open>
  Claim C1 as stated fails: after the call the second row of the input, whose cell
  was empty, holds the median.
\<close>

theorem clean_overwrites_input:
  "rows (cleanCSVData decimal_runtime False [[(''a'', ''1'')], [(''a'', [])], [(''a'', ''3'')]])
     = [[(''a'', ''1'')], [(''a'', ''2'')], [(''a'', ''3'')]]
   \<and> rows (cleanCSVData decimal_runtime False [[(''a'', ''1'')], [(''a'', [])], [(''a'', ''3'')]])
     \<noteq> [[(''a'', ''1'')], [(''a'', [])], [(''a'', ''3'')]]"
proof -
  have "rows (cleanCSVData decimal_runtime False [[(''a'', ''1'')], [(''a'', [])], [(''a'', ''3'')]])
     = [[(''a'', ''1'')], [(''a'', ''2'')], [(''a'', ''3'')]]"
    by code_simp
  then show ?thesis by simp
qed

subsection \<open>C2: skewness and kurtosis of few values\<close>

text \<open>
  Claim C2 at the values 1 and 3, a numeric column of two rows: the mean is 2, the
  standard deviation 1, and both \<open>calculateSkewness\<close> and \<open>calculateKurtosis\<close>
  return NaN, which the report prints as \<open>NaN\<close>. The functions guard \<open>std === 0\<close>
  only; with two values \<open>(n - 1) * (n - 2)\<close> is 0.
\<close>

theorem skewness_of_two_values:
  "calculateStandardDeviation [Fin 1, Fin 3] = Fin 1
   \<and> calculateSkewness [Fin 1, Fin 3] (Fin 2) (Fin 1) = NaN
   \<and> calculateKurtosis [Fin 1, Fin 3] (Fin 2) (Fin 1) = NaN
   \<and> map_of (summary (analyzeCSVQuality decimal_runtime [[(''a'', ''1'')], [(''a'', ''3'')]])) ''a''
       = Some (summaryOf decimal_runtime [Fin 1, Fin 3])
   \<and> skewness (summaryOf decimal_runtime [Fin 1, Fin 3]) = ''NaN''
   \<and> kurtosis (summaryOf decimal_runtime [Fin 1, Fin 3]) = ''NaN''"
  by (simp only: std_1_3 skew_1_3 kurt_1_3 analysis_1_3 summary_1_3 simp_thms)

subsection \<open>C3: the bounds of the capping step\<close>

text \<open>
  Claim C3 at the column 5, 100, 3, 1, 4. The capping step passes the numbers to
  \<open>percentile\<close> in row order, and \<open>percentile\<close> does not sort: the quartiles it
  returns are 100 and 1, the bounds 248.5 and -147.5, and every value is replaced by
  248.5. The quartiles of the sorted values are 3 and 5, the bounds 0 and 8.
\<close>

theorem capping_bounds_from_row_order:
  "store (outliersCapped decimal_runtime
             [[(''v'', ''5'')], [(''v'', ''100'')], [(''v'', ''3'')], [(''v'', ''1'')], [(''v'', ''4'')]])
     = [[(''v'', ''248.5'')], [(''v'', ''248.5'')], [(''v'', ''248.5'')], [(''v'', ''248.5'')],
        [(''v'', ''248.5'')]]
   \<and> outliersTreated (rep (outliersCapped decimal_runtime
             [[(''v'', ''5'')], [(''v'', ''100'')], [(''v'', ''3'')], [(''v'', ''1'')], [(''v'', ''4'')]])) = 5
   \<and> percentile [Fin 5, Fin 100, Fin 3, Fin 1, Fin 4] 25 = Fin 100
   \<and> percentile [Fin 5, Fin 100, Fin 3, Fin 1, Fin 4] 75 = Fin 1
   \<and> percentile (sort_num [Fin 5, Fin 100, Fin 3, Fin 1, Fin 4]) 25 = Fin 3
   \<and> percentile (sort_num [Fin 5, Fin 100, Fin 3, Fin 1, Fin 4]) 75 = Fin 5
   \<and> percentile_1698 [Fin 5, Fin 100, Fin 3, Fin 1, Fin 4] 25 = Fin 3
   \<and> percentile_1698 [Fin 5, Fin 100, Fin 3, Fin 1, Fin 4] 75 = Fin 5"
  by code_simp

subsection \<open>C4: the validity score of a column named email\<close>

text \<open>
  Claim C4 at a table whose only column is named \<open>email\<close> and holds \<open>BAD EMAIL\<close>.
  \<open>validateDataPattern\<close> is called with the detected type of the column, here
  \<open>categorical\<close>, for which it checks nothing: the validity score stays 100. Called
  with \<open>email\<close>, which \<open>detectDataType\<close> never returns, it would count the value
  as invalid.
\<close>

theorem email_column_not_checked:
  "validity (metrics (analyzeCSVQuality decimal_runtime [[(''email'', ''BAD EMAIL'')]])) = Str ''100.00''
   \<and> dataTypes (analyzeCSVQuality decimal_runtime [[(''email'', ''BAD EMAIL'')]])
       = [(''email'', ''categorical'')]
   \<and> validateDataPattern decimal_runtime [''BAD EMAIL''] ''categorical'' = 0
   \<and> validateDataPattern decimal_runtime [''BAD EMAIL''] ''email'' = 1"
  by (simp only: analysis_email parts_email simp_thms)

subsection \<open>C5: duplicates\<close>

text \<open>
  Claim C5. The rows returned are the rows of the input that repeat no earlier row
  (a row repeats another when both have the same properties with the same values, that
  is the same \<open>JSON.stringify\<close> text), in the order of the input; their number is at
  most the number of rows of the input, it is the number of distinct rows, and it is
  the number of rows of the input minus \<open>duplicatesRemoved\<close>, which counts the rows that
  repeat an earlier one.
\<close>

theorem dedup_row_count:
  "data (cleanCSVData rt nn results)
     = filter (\<lambda>a. JSON_stringify (results ! a) \<notin> JSON_stringify ` set (take a results))
         [0..<length results]
   \<and> length (cleanedTable (cleanCSVData rt nn results)) \<le> length results
   \<and> length (cleanedTable (cleanCSVData rt nn results)) = card (JSON_stringify ` set results)
   \<and> duplicatesRemoved (report (cleanCSVData rt nn results))
       = length (filter (\<lambda>a. JSON_stringify (results ! a) \<in> JSON_stringify ` set (take a results))
           [0..<length results])
   \<and> length (cleanedTable (cleanCSVData rt nn results))
       = length results - duplicatesRemoved (report (cleanCSVData rt nn results))"
proof -
  let ?dup = "\<lambda>a. JSON_stringify (results ! a) \<in> JSON_stringify ` set (take a results)"
  have d: "data (cleanCSVData rt nn results) = filter (\<lambda>a. \<not> ?dup a) [0..<length results]"
    by (rule dedup_core)
  have l: "length (cleanedTable (cleanCSVData rt nn results))
      = length (filter (\<lambda>a. \<not> ?dup a) [0..<length results])"
    by (simp add: cleanedTable_def d)
  have s: "length (filter ?dup [0..<length results])
      + length (filter (\<lambda>a. \<not> ?dup a) [0..<length results]) = length results"
    using sum_length_filter_compl [of ?dup "[0..<length results]"] by simp
  have r: "duplicatesRemoved (report (cleanCSVData rt nn results))
      = length results - length (filter (\<lambda>a. \<not> ?dup a) [0..<length results])"
    by (simp add: cleanCSVData_def Let_def finish_fields duplicatesRemoved_validated
        cleanedData_deduplicated)
  have c: "length (cleanedTable (cleanCSVData rt nn results)) = card (JSON_stringify ` set results)"
    by (simp add: cleanedTable_def data_cleanCSVData length_deduplicated)
  from d l s r c show ?thesis by simp
qed

text \<open>
  The theorem at the table of five rows in which the first row comes again as the
  third: four rows are returned and one duplicate is counted.
\<close>

theorem dedup_row_count_witness:
  "data (cleanCSVData decimal_runtime False
      [[(''x'', ''1''), (''y'', ''2'')], [(''x'', ''3''), (''y'', ''4'')], [(''x'', ''1''), (''y'', ''2'')],
       [(''x'', ''5''), (''y'', ''6'')], [(''x'', ''7''), (''y'', ''8'')]]) = [0, 1, 3, 4]
   \<and> length (cleanedTable (cleanCSVData decimal_runtime False
      [[(''x'', ''1''), (''y'', ''2'')], [(''x'', ''3''), (''y'', ''4'')], [(''x'', ''1''), (''y'', ''2'')],
       [(''x'', ''5''), (''y'', ''6'')], [(''x'', ''7''), (''y'', ''8'')]])) = 4
   \<and> duplicatesRemoved (report (cleanCSVData decimal_runtime False
      [[(''x'', ''1''), (''y'', ''2'')], [(''x'', ''3''), (''y'', ''4'')], [(''x'', ''1''), (''y'', ''2'')],
       [(''x'', ''5''), (''y'', ''6'')], [(''x'', ''7''), (''y'', ''8'')]])) = 1"
proof -
  let ?t = "[[(''x'', ''1''), (''y'', ''2'')], [(''x'', ''3''), (''y'', ''4'')], [(''x'', ''1''), (''y'', ''2'')],
       [(''x'', ''5''), (''y'', ''6'')], [(''x'', ''7''), (''y'', ''8'')]]"
  let ?c = "cleanCSVData decimal_runtime False ?t"
  have d: "data ?c = [0, 1, 3, 4]" by code_simp
  then have l: "length (cleanedTable ?c) = 4" by (simp add: cleanedTable_def)
  from dedup_row_count [of decimal_runtime False ?t]
  have "length (cleanedTable ?c) = length ?t - duplicatesRemoved (report ?c)"
    by blast
  with l have "duplicatesRemoved (report ?c) = 1" by simp
  with d l show ?thesis by simp
qed

subsection \<open>C6: cleaning the cleaned table\<close>

text \<open>
  Claim C6 at two tables. In the first the only cell holds \<open>null\<close>: the test of
  line 1442 takes it for missing, the filter of lines 1448 and 1467 does not leave it
  out, so the most frequent value of the column is \<open>null\<close> itself and the cell is
  filled with it; the cleaned table is the table, and cleaning it imputes one value
  again. In the second the two rows differ by a capital: step 1 keeps both, step 3
  lowercases them, the cleaned table has the same row twice, and cleaning it removes
  a duplicate.
\<close>

theorem reclean_not_stable:
  "cleanedTable (cleanCSVData decimal_runtime False [[(''a'', ''null'')]]) = [[(''a'', ''null'')]]
   \<and> valuesImputed (report (cleanCSVData decimal_runtime False [[(''a'', ''null'')]])) = 1
   \<and> valuesImputed (report (cleanCSVData decimal_runtime False
        (cleanedTable (cleanCSVData decimal_runtime False [[(''a'', ''null'')]])))) = 1
   \<and> cleanedTable (cleanCSVData decimal_runtime False [[(''n'', ''Bob'')], [(''n'', ''bob'')]])
       = [[(''n'', ''bob'')], [(''n'', ''bob'')]]
   \<and> duplicatesRemoved (report (cleanCSVData decimal_runtime False [[(''n'', ''Bob'')], [(''n'', ''bob'')]])) = 0
   \<and> duplicatesRemoved (report (cleanCSVData decimal_runtime False
        (cleanedTable (cleanCSVData decimal_runtime False [[(''n'', ''Bob'')], [(''n'', ''bob'')]])))) = 1"
  by code_simp

subsection \<open>C7: the correlation of a column with an infinite value\<close>

text \<open>
  Claim C7 at two numeric columns of two rows, the first of which holds \<open>Infinity\<close>,
  which \<open>parseFloat\<close> reads as the infinite number. \<open>calculateCorrelation\<close> filters out
  NaN only: the mean is infinite, the difference of the infinite value and the mean is
  NaN, the denominator is NaN and not 0, and the coefficient is NaN, which the report
  prints as \<open>NaN\<close>.
\<close>

theorem correlation_of_infinite_value:
  "calculateCorrelation decimal_runtime
     [[(''a'', ''Infinity''), (''b'', ''1'')], [(''a'', ''1''), (''b'', ''2'')]] ''a'' ''b'' = NaN
   \<and> correlations (analyzeCSVQuality decimal_runtime
       [[(''a'', ''Infinity''), (''b'', ''1'')], [(''a'', ''1''), (''b'', ''2'')]])
       = [(''a'', [(''b'', ''NaN'')])]"
  by (simp only: corr_inf analysis_inf simp_thms)

subsection \<open>C8: a table without columns\<close>

text \<open>
  Claim C8 at the table of one row without properties, a table of zero columns: the
  number of cells is 0, the analysis divides by it, and the completeness, the
  consistency and the overall score are NaN; the final quality score of the cleaning
  is NaN as well. Only the table without rows is guarded (\<open>zero_rows\<close>).
\<close>

theorem zero_columns_metrics:
  "metrics (analyzeCSVQuality decimal_runtime [[]]) =
     \<lparr>completeness = Str ''NaN'', consistency = Str ''NaN'', accuracy = Num (Fin 0),
      validity = Str ''100.00'', uniqueness = Str ''100.00'', overallScore = Str ''NaN''\<rparr>
   \<and> finalQualityScore (report (cleanCSVData decimal_runtime False [[]])) = Some NaN"
proof -
  have "finalQualityScore (report (cleanCSVData decimal_runtime False [[]])) = Some NaN"
    by code_simp
  then show ?thesis by (simp only: analysis_none simp_thms)
qed

subsection \<open>C9: the sentences of the report\<close>




subsection \<open>C10: the value that fills a missing cell\<close>

text \<open>
  Claim C10 at a table of three rows in which column \<open>a\<close> holds \<open>null\<close>, \<open>null\<close>
  and \<open>b\<close>. The two cells with \<open>null\<close> are missing by the test of line 1442, and the
  only value that is not missing is \<open>b\<close>; but the values from which the type and the
  mode are taken (lines 1448 and 1467) leave out the blank cells only, so the mode is
  \<open>null\<close>, counted twice, and the two missing cells are assigned \<open>null\<close>: after the
  step, and after the run, they hold what they held, and two values are reported as
  imputed.
\<close>

theorem null_fills_missing_cells:
  "missingIndicesOf
      [[(''k'', ''1''), (''a'', ''null'')], [(''k'', ''2''), (''a'', ''null'')], [(''k'', ''3''), (''a'', ''b'')]]
      [0, 1, 2] ''a'' = [0, 1]
   \<and> maxBy1 (toPairs (countBy (strings_of (filter nonblank (map
        (\<lambda>a. cell [[(''k'', ''1''), (''a'', ''null'')], [(''k'', ''2''), (''a'', ''null'')],
                    [(''k'', ''3''), (''a'', ''b'')]] a ''a'') [0, 1, 2])))))
       = Some (''null'', 2)
   \<and> store (imputed decimal_runtime
        [[(''k'', ''1''), (''a'', ''null'')], [(''k'', ''2''), (''a'', ''null'')], [(''k'', ''3''), (''a'', ''b'')]])
       = [[(''k'', ''1''), (''a'', ''null'')], [(''k'', ''2''), (''a'', ''null'')], [(''k'', ''3''), (''a'', ''b'')]]
   \<and> valuesImputed (rep (imputed decimal_runtime
        [[(''k'', ''1''), (''a'', ''null'')], [(''k'', ''2''), (''a'', ''null'')], [(''k'', ''3''), (''a'', ''b'')]])) = 2
   \<and> rows (cleanCSVData decimal_runtime False
        [[(''k'', ''1''), (''a'', ''null'')], [(''k'', ''2''), (''a'', ''null'')], [(''k'', ''3''), (''a'', ''b'')]])
       = [[(''k'', ''1''), (''a'', ''null'')], [(''k'', ''2''), (''a'', ''null'')], [(''k'', ''3''), (''a'', ''b'')]]
   \<and> stepsApplied (report (cleanCSVData decimal_runtime False
        [[(''k'', ''1''), (''a'', ''null'')], [(''k'', ''2''), (''a'', ''null'')], [(''k'', ''3''), (''a'', ''b'')]]))
       = [''Imputed 2 missing values'', ''Standardized text format to lowercase'',
          ''Converted 3 values to appropriate data types'', completed_message]"
  by code_simp

end
